theory Spec2Isabelle
  imports Complex_Main
begin

section \<open>Data model of src/core.js\<close>

text \<open>
  The parsed XML document, as the xml-parser package hands it to \<open>reportXml\<close>: every
  element has a tag \<open>name\<close>, an \<open>attributes\<close> object (string keys, string values) and
  the array of its child elements. No attribute is taken to be named \<open>hasOwnProperty\<close>,
  the method the code calls on the \<open>attributes\<close> object.
\<close>

datatype node = Node (name: string) (attributes: "string \<rightharpoonup> string") (children: "node list")

text \<open>
  JavaScript numbers, with exact rationals in the place of doubles (the rounding of
  doubles is outside this model).
\<close>

datatype jsnum = NaN | PosInfinity | NegInfinity | Fin rat

text \<open>
  JavaScript values: what the configuration tables hold, what the resolver returns and
  what the TestRail client hands to a callback. \<open>JObj\<close> is a plain object by its own
  properties (the first pair of a key counts); \<open>JFunction\<close> stands for a function or
  another built-in object, by its name.
\<close>

datatype jsval =
    JUndefined
  | JNull
  | JBool bool
  | JNum jsnum
  | JStr string
  | JArr "jsval list"
  | JObj "(string \<times> jsval) list"
  | JFunction string

fun truthy :: "jsval \<Rightarrow> bool" where
  "truthy JUndefined = False"
| "truthy JNull = False"
| "truthy (JBool b) = b"
| "truthy (JNum n) = (n \<noteq> NaN \<and> n \<noteq> Fin 0)"
| "truthy (JStr s) = (s \<noteq> [])"
| "truthy (JArr xs) = True"
| "truthy (JObj ps) = True"
| "truthy (JFunction f) = True"

fun nullish :: "jsval \<Rightarrow> bool" where
  "nullish JUndefined = True"
| "nullish JNull = True"
| "nullish v = False"

text \<open>
  The configuration object \<open>configs\<close>: the two tables as the values the code reads
  (\<open>JUndefined\<close> where the configuration has no such table).
\<close>

record configs =
  caseNameToIdMap :: jsval
  caseClassAndNameToIdMap :: jsval

text \<open>
  The object \<open>caseResult\<close> built per testcase. A field the code never assigns is
  \<open>None\<close>; \<open>case_id\<close> is always assigned (\<open>JNull\<close> when nothing matched).
\<close>

record caseResult =
  case_id :: jsval
  elapsed :: "string option"
  status_id :: int
  comment :: "string option"
  version :: "string option"

text \<open>
  What the code takes from its libraries and from the JavaScript runtime, as parameters
  of the model:
  \<^item> \<open>HtmlEntities_decode\<close>, the decoder of the html-entities package; its argument is
    \<open>None\<close> where the attribute is missing (JavaScript's \<open>undefined\<close>);
  \<^item> \<open>ToNumber\<close>, the conversion of a string to a number;
  \<^item> \<open>NumberToString\<close>, the text of an integer of magnitude above \<open>2^53\<close> (shortest
    round-trip digits, exponent form from \<open>10^21\<close>);
  \<^item> \<open>Object_prototype\<close>, the property a plain object inherits under a name
    (\<open>constructor\<close>, \<open>toString\<close>, ...), \<open>JUndefined\<close> where there is none;
  \<^item> \<open>GetOther\<close>, the property read \<open>v[k]\<close> on a value that is not a plain object.
\<close>

record runtime =
  HtmlEntities_decode :: "string option \<Rightarrow> string"
  ToNumber :: "string \<Rightarrow> jsnum"
  NumberToString :: "int \<Rightarrow> string"
  Object_prototype :: "string \<Rightarrow> jsval"
  GetOther :: "jsval \<Rightarrow> string \<Rightarrow> jsval"

text \<open>
  The property read \<open>v[k]\<close>: an own property of a plain object, else what the object
  inherits. The code reads only from values it has tested to be truthy.
\<close>

fun Get :: "runtime \<Rightarrow> jsval \<Rightarrow> string \<Rightarrow> jsval" where
  "Get rt (JObj ps) k = (case map_of ps k of Some v \<Rightarrow> v | None \<Rightarrow> Object_prototype rt k)"
| "Get rt v k = GetOther rt v k"

subsection \<open>Number to string\<close>

definition digitChar :: "nat \<Rightarrow> char" where
  "digitChar d = ''0123456789'' ! d"

fun natToString :: "nat \<Rightarrow> string" where
  "natToString n = (if n < 10 then [digitChar n] else natToString (n div 10) @ [digitChar (n mod 10)])"

declare natToString.simps [simp del]

definition intToString :: "int \<Rightarrow> string" where
  "intToString i = (if i < 0 then CHR ''-'' # natToString (nat (- i)) else natToString (nat i))"

text \<open>
  The text of an integer: its decimal digits up to magnitude \<open>2^53\<close>, where JavaScript
  prints every digit; beyond, what the runtime prints.
\<close>

definition integerToString :: "runtime \<Rightarrow> int \<Rightarrow> string" where
  "integerToString rt n = (if \<bar>n\<bar> \<le> 2 ^ 53 then intToString n else NumberToString rt n)"

text \<open>The text JavaScript produces for \<open>Math.ceil(x) + ''\<close>.\<close>

definition Math_ceil_toString :: "runtime \<Rightarrow> jsnum \<Rightarrow> string" where
  "Math_ceil_toString rt x =
     (case x of
        NaN \<Rightarrow> ''NaN''
      | PosInfinity \<Rightarrow> ''Infinity''
      | NegInfinity \<Rightarrow> ''-Infinity''
      | Fin q \<Rightarrow> integerToString rt \<lceil>q\<rceil>)"

section \<open>Case identity resolution: \<open>_resolveCaseIdFrom\<close>\<close>

text \<open>
  Each \<open>&&\<close> of the source guards the read that follows it, so every \<open>Get\<close> below is
  on a truthy value.
\<close>

definition resolveCaseIdFromTestCase :: "runtime \<Rightarrow> configs \<Rightarrow> node \<Rightarrow> jsval" where
  "resolveCaseIdFromTestCase rt configs testCase =
     (let testClass = HtmlEntities_decode rt (attributes testCase ''class'');
          testName = HtmlEntities_decode rt (attributes testCase ''name'')
      in if truthy (caseClassAndNameToIdMap configs)
            \<and> truthy (Get rt (caseClassAndNameToIdMap configs) testClass)
            \<and> truthy (Get rt (Get rt (caseClassAndNameToIdMap configs) testClass) testName)
         then Get rt (Get rt (caseClassAndNameToIdMap configs) testClass) testName
         else if truthy (caseNameToIdMap configs)
            \<and> truthy (Get rt (caseNameToIdMap configs) testName)
         then Get rt (caseNameToIdMap configs) testName
         else JNull)"

section \<open>Result extraction: \<open>parseXmlIntoCaseResults\<close>\<close>

text \<open>The object built for one child tagged \<open>testcase\<close> (lines 173 to 196).\<close>

definition testcaseResult :: "runtime \<Rightarrow> configs \<Rightarrow> node \<Rightarrow> caseResult" where
  "testcaseResult rt configs testcase =
     \<lparr> case_id = resolveCaseIdFromTestCase rt configs testcase,
       elapsed =
         (case attributes testcase ''time'' of
            None \<Rightarrow> None
          | Some t \<Rightarrow>
              Some (Math_ceil_toString rt (if ToNumber rt t = Fin 0 then Fin 1 else ToNumber rt t)
                    @ ''s'')),
       status_id = (if children testcase = [] then 1 else 5),
       comment =
         (case children testcase of
            [] \<Rightarrow> None
          | failure # _ \<Rightarrow>
              (case attributes failure ''message'' of
                 None \<Rightarrow> None
               | Some message \<Rightarrow>
                   if message = [] then None
                   else Some (HtmlEntities_decode rt (Some message)))),
       version = None \<rparr>"

text \<open>
  \<open>xml.root.children.forEach\<close> over the children of a \<open>testsuite\<close>: only children
  tagged \<open>testcase\<close> are looked at, and a result is pushed only when its \<open>case_id\<close> is
  truthy.
\<close>

fun forEach_testcase :: "runtime \<Rightarrow> configs \<Rightarrow> node list \<Rightarrow> caseResult list \<Rightarrow> caseResult list" where
  "forEach_testcase rt configs [] caseResults = caseResults"
| "forEach_testcase rt configs (testcase # rest) caseResults =
     forEach_testcase rt configs rest
       (if name testcase = ''testcase''
        then (if truthy (case_id (testcaseResult rt configs testcase))
              then caseResults @ [testcaseResult rt configs testcase]
              else caseResults)
        else caseResults)"

datatype error = InvalidXml

text \<open>
  The recursive function itself. \<open>process.exit(1)\<close> in the last branch ends the whole
  run: it is the value \<open>Inl InvalidXml\<close>, which every caller passes on.
\<close>

fun parseXmlIntoCaseResults ::
  "runtime \<Rightarrow> configs \<Rightarrow> node \<Rightarrow> caseResult list \<Rightarrow> error + caseResult list"
and forEach_testSuite ::
  "runtime \<Rightarrow> configs \<Rightarrow> node list \<Rightarrow> caseResult list \<Rightarrow> error + caseResult list" where
  "parseXmlIntoCaseResults rt configs (Node nm attrs cs) caseResults =
     (if nm = ''testsuite'' \<and> cs \<noteq> []
      then Inr (forEach_testcase rt configs cs caseResults)
      else if nm = ''testsuites''
      then forEach_testSuite rt configs cs caseResults
      else Inl InvalidXml)"
| "forEach_testSuite rt configs [] caseResults = Inr caseResults"
| "forEach_testSuite rt configs (testSuite # rest) caseResults =
     (case parseXmlIntoCaseResults rt configs testSuite caseResults of
        Inl e \<Rightarrow> Inl e
      | Inr caseResults' \<Rightarrow> forEach_testSuite rt configs rest caseResults')"

text \<open>
  \<open>fileContents.forEach\<close>: every file is parsed and run through
  \<open>parseXmlIntoCaseResults\<close>, all pushing onto the one array \<open>caseResults\<close>. The list
  holds the root node of each parsed file.
\<close>

fun forEach_fileContents ::
  "runtime \<Rightarrow> configs \<Rightarrow> node list \<Rightarrow> caseResult list \<Rightarrow> error + caseResult list" where
  "forEach_fileContents rt configs [] caseResults = Inr caseResults"
| "forEach_fileContents rt configs (xml # rest) caseResults =
     (case parseXmlIntoCaseResults rt configs xml caseResults of
        Inl e \<Rightarrow> Inl e
      | Inr caseResults' \<Rightarrow> forEach_fileContents rt configs rest caseResults')"

section \<open>The single-suite variant of the extraction (src/unnamed/part_000)\<close>

text \<open>
  The second copy of the core reads the identifier from \<open>configs.caseNameToIdMap\<close>
  alone (a \<open>TypeError\<close> when the table is missing), always sets \<open>elapsed\<close>,
  \<open>version\<close> and, for a failure, \<open>comment\<close>, and pushes every testcase.
  \<open>Math.ceil(undefined)\<close> is \<open>NaN\<close>.
\<close>

datatype error_part_000 = InvalidXml_part_000 | TypeError_part_000

definition testcaseResult_part_000 :: "runtime \<Rightarrow> configs \<Rightarrow> node \<Rightarrow> caseResult" where
  "testcaseResult_part_000 rt configs testcase =
     \<lparr> case_id =
         Get rt (caseNameToIdMap configs) (HtmlEntities_decode rt (attributes testcase ''name'')),
       elapsed =
         Some (Math_ceil_toString rt
                 (case attributes testcase ''time'' of None \<Rightarrow> NaN | Some t \<Rightarrow> ToNumber rt t)
               @ ''s''),
       status_id = (if children testcase = [] then 1 else 5),
       comment =
         (case children testcase of
            [] \<Rightarrow> None
          | failure # _ \<Rightarrow> Some (HtmlEntities_decode rt (attributes failure ''message''))),
       version = Some ''test'' \<rparr>"

fun forEach_testcase_part_000 ::
  "runtime \<Rightarrow> configs \<Rightarrow> node list \<Rightarrow> caseResult list \<Rightarrow> error_part_000 + caseResult list" where
  "forEach_testcase_part_000 rt configs [] caseResults = Inr caseResults"
| "forEach_testcase_part_000 rt configs (testcase # rest) caseResults =
     (if name testcase = ''testcase''
      then (if nullish (caseNameToIdMap configs) then Inl TypeError_part_000
            else forEach_testcase_part_000 rt configs rest
                   (caseResults @ [testcaseResult_part_000 rt configs testcase]))
      else forEach_testcase_part_000 rt configs rest caseResults)"

fun forEach_fileContents_part_000 ::
  "runtime \<Rightarrow> configs \<Rightarrow> node list \<Rightarrow> caseResult list \<Rightarrow> error_part_000 + caseResult list" where
  "forEach_fileContents_part_000 rt configs [] caseResults = Inr caseResults"
| "forEach_fileContents_part_000 rt configs (xml # rest) caseResults =
     (if name xml \<noteq> ''testsuite'' then Inl InvalidXml_part_000
      else (case forEach_testcase_part_000 rt configs (children xml) caseResults of
              Inl e \<Rightarrow> Inl e
            | Inr caseResults' \<Rightarrow> forEach_fileContents_part_000 rt configs rest caseResults'))"

section \<open>The remote service and the retried calls\<close>

text \<open>
  \<open>response.id\<close>, \<open>response.completed_on\<close>, \<open>response.error\<close>: the property of an
  object, \<open>undefined\<close> on any other value that is not nullish (reading a property of
  \<open>null\<close> or \<open>undefined\<close> throws a \<open>TypeError\<close>). None of the three names is a
  property that objects inherit.
\<close>

fun property :: "jsval \<Rightarrow> string \<Rightarrow> jsval" where
  "property (JObj ps) k = (case map_of ps k of None \<Rightarrow> JUndefined | Some v \<Rightarrow> v)"
| "property v k = JUndefined"

text \<open>\<open>response instanceof Array && response.length\<close>.\<close>

fun nonEmptyArray :: "jsval \<Rightarrow> bool" where
  "nonEmptyArray (JArr xs) = (xs \<noteq> [])"
| "nonEmptyArray v = False"

fun arrayLength :: "jsval \<Rightarrow> nat" where
  "arrayLength (JArr xs) = length xs"
| "arrayLength v = 0"

text \<open>
  \<open>typeof response === 'string' ? JSON.parse(response) : response\<close>. \<open>JSON_parse\<close> is a
  parameter; \<open>None\<close> is the \<open>SyntaxError\<close> it throws.
\<close>

definition parseResponse :: "(string \<Rightarrow> jsval option) \<Rightarrow> jsval \<Rightarrow> jsval option" where
  "parseResponse JSON_parse response =
     (case response of JStr text \<Rightarrow> JSON_parse text | _ \<Rightarrow> Some response)"

text \<open>The calls made on the TestRail client, with their arguments.\<close>

datatype request =
    AddRun jsval jsval jsval jsval jsval
  | CloseRun jsval
  | AddResultsForCases jsval "caseResult list"

text \<open>
  What a command prints on its way out: the line of \<open>console.log\<close> or \<open>console.error\<close>,
  by the value it is built from. Output under the \<open>debug\<close> flag is not modelled.
\<close>

datatype message =
    MissingProjectIdOrName
  | MissingRunId
  | RunId jsval
  | ClosedRun jsval
  | Uploaded nat
  | ErrorInitializing jsval
  | ErrorClosing jsval
  | ErrorUploading jsval
  | InvalidXmlRoot
  | DidNotParse

text \<open>
  \<open>Exit0 m\<close>: \<open>console.log\<close> then \<open>process.exit(0)\<close>; \<open>Exit1 m\<close>: \<open>console.error\<close> then
  \<open>process.exit(1)\<close>; \<open>Returned m\<close>: \<open>console.log\<close> and the callback returns;
  \<open>Uncaught\<close>: an exception leaves the callback.
\<close>

datatype outcome = Exit0 message | Exit1 message | Returned message | Uncaught

text \<open>
  The state of one core object: the shared counter \<open>apiCallsAttempted\<close>, and the calls
  made on the client so far (kept to count them). \<open>TestRail\<close> gives the response the
  callback receives, from the calls made up to and including this one.
\<close>

record state =
  apiCallsAttempted :: nat
  requests :: "request list"

definition maxCallAttemptsAllowed :: nat where
  "maxCallAttemptsAllowed = 5"

function initializeTestRun ::
  "(string \<Rightarrow> jsval option) \<Rightarrow> (request list \<Rightarrow> jsval) \<Rightarrow>
   jsval \<Rightarrow> jsval \<Rightarrow> jsval \<Rightarrow> jsval \<Rightarrow> jsval \<Rightarrow> state \<Rightarrow> outcome \<times> state" where
  "initializeTestRun JSON_parse TestRail projectId runName suiteId description milestoneId s =
     (if \<not> truthy projectId \<or> \<not> truthy runName then (Exit1 MissingProjectIdOrName, s)
      else
        let s1 = s\<lparr>requests :=
                     requests s @ [AddRun projectId suiteId runName description milestoneId]\<rparr> in
        case parseResponse JSON_parse (TestRail (requests s1)) of
          None \<Rightarrow> (Uncaught, s1)
        | Some response \<Rightarrow>
            if nullish response then (Uncaught, s1)
            else if truthy (property response ''id'')
            then (Exit0 (RunId (property response ''id'')), s1)
            else if apiCallsAttempted s1 < maxCallAttemptsAllowed
            then initializeTestRun JSON_parse TestRail projectId runName suiteId description
                   milestoneId (s1\<lparr>apiCallsAttempted := apiCallsAttempted s1 + 1\<rparr>)
            else (Exit1 (ErrorInitializing (property response ''error'')), s1))"
  by pat_completeness auto
termination
  by (relation "measure (\<lambda>(JSON_parse, TestRail, projectId, runName, suiteId, description,
        milestoneId, s). maxCallAttemptsAllowed - apiCallsAttempted s)")
     (auto simp: maxCallAttemptsAllowed_def)

declare initializeTestRun.simps [simp del]

function closeTestRun ::
  "(string \<Rightarrow> jsval option) \<Rightarrow> (request list \<Rightarrow> jsval) \<Rightarrow> jsval \<Rightarrow> state \<Rightarrow> outcome \<times> state" where
  "closeTestRun JSON_parse TestRail runId s =
     (if \<not> truthy runId then (Exit1 MissingRunId, s)
      else
        let s1 = s\<lparr>requests := requests s @ [CloseRun runId]\<rparr> in
        case parseResponse JSON_parse (TestRail (requests s1)) of
          None \<Rightarrow> (Uncaught, s1)
        | Some response \<Rightarrow>
            if nullish response then (Uncaught, s1)
            else if truthy (property response ''completed_on'')
            then (Exit0 (ClosedRun runId), s1)
            else if apiCallsAttempted s1 < maxCallAttemptsAllowed
            then closeTestRun JSON_parse TestRail runId
                   (s1\<lparr>apiCallsAttempted := apiCallsAttempted s1 + 1\<rparr>)
            else (Exit1 (ErrorClosing (property response ''error'')), s1))"
  by pat_completeness auto
termination
  by (relation "measure (\<lambda>(JSON_parse, TestRail, runId, s).
        maxCallAttemptsAllowed - apiCallsAttempted s)")
     (auto simp: maxCallAttemptsAllowed_def)

declare closeTestRun.simps [simp del]

function addResultsForCasesAttempt ::
  "(string \<Rightarrow> jsval option) \<Rightarrow> (request list \<Rightarrow> jsval) \<Rightarrow> jsval \<Rightarrow> caseResult list \<Rightarrow>
   state \<Rightarrow> outcome \<times> state" where
  "addResultsForCasesAttempt JSON_parse TestRail runId caseResults s =
     (let s1 = s\<lparr>requests := requests s @ [AddResultsForCases runId caseResults]\<rparr> in
      case parseResponse JSON_parse (TestRail (requests s1)) of
        None \<Rightarrow> (Uncaught, s1)
      | Some response \<Rightarrow>
          if nonEmptyArray response then (Exit0 (Uploaded (arrayLength response)), s1)
          else if apiCallsAttempted s1 < maxCallAttemptsAllowed
          then addResultsForCasesAttempt JSON_parse TestRail runId caseResults
                 (s1\<lparr>apiCallsAttempted := apiCallsAttempted s1 + 1\<rparr>)
          else if nullish response then (Uncaught, s1)
          else (Exit1 (ErrorUploading (property response ''error'')), s1))"
  by pat_completeness auto
termination
  by (relation "measure (\<lambda>(JSON_parse, TestRail, runId, caseResults, s).
        maxCallAttemptsAllowed - apiCallsAttempted s)")
     (auto simp: maxCallAttemptsAllowed_def)

declare addResultsForCasesAttempt.simps [simp del]

text \<open>
  The callback of \<open>reportXml\<close> that runs once every selected file is read (lines 165 to
  260), on the parsed roots of the files: extraction, then the upload when there is
  anything to upload.
\<close>

definition reportXml_done ::
  "runtime \<Rightarrow> (string \<Rightarrow> jsval option) \<Rightarrow> (request list \<Rightarrow> jsval) \<Rightarrow> configs \<Rightarrow> jsval \<Rightarrow>
   node list \<Rightarrow> state \<Rightarrow> outcome \<times> state" where
  "reportXml_done rt JSON_parse TestRail configs runId roots s =
     (case forEach_fileContents rt configs roots [] of
        Inl e \<Rightarrow> (Exit1 InvalidXmlRoot, s)
      | Inr caseResults \<Rightarrow>
          if caseResults \<noteq> []
          then addResultsForCasesAttempt JSON_parse TestRail runId caseResults s
          else (Returned DidNotParse, s))"

section \<open>Notions of the specification\<close>

text \<open>
  The entries a table contains, in the specification's words: the own entry of a
  mapping under a key, the entry of the class-qualified table for a class and a name,
  and the entry of the flat table for a name.
\<close>

fun ownEntry :: "jsval \<Rightarrow> string \<Rightarrow> jsval option" where
  "ownEntry (JObj ps) k = map_of ps k"
| "ownEntry v k = None"

definition classQualifiedEntry :: "configs \<Rightarrow> string \<Rightarrow> string \<Rightarrow> jsval option" where
  "classQualifiedEntry configs testClass testName =
     (case ownEntry (caseClassAndNameToIdMap configs) testClass of
        None \<Rightarrow> None
      | Some byName \<Rightarrow> ownEntry byName testName)"

definition flatEntry :: "configs \<Rightarrow> string \<Rightarrow> jsval option" where
  "flatEntry configs testName = ownEntry (caseNameToIdMap configs) testName"

text \<open>An entry that is there and is truthy.\<close>

definition truthyEntry :: "jsval option \<Rightarrow> bool" where
  "truthyEntry e = (case e of None \<Rightarrow> False | Some v \<Rightarrow> truthy v)"

text \<open>
  Tables shaped as the data model has them: the flat table is absent or a mapping, the
  class-qualified table is absent or a mapping whose entries are mappings.
\<close>

fun plainObject :: "jsval \<Rightarrow> bool" where
  "plainObject (JObj ps) = True"
| "plainObject v = False"

fun mappingOfMappings :: "jsval \<Rightarrow> bool" where
  "mappingOfMappings (JObj ps) = list_all (\<lambda>p. plainObject (snd p)) ps"
| "mappingOfMappings v = False"

definition wellFormedTables :: "configs \<Rightarrow> bool" where
  "wellFormedTables configs =
     ((caseNameToIdMap configs = JUndefined \<or> plainObject (caseNameToIdMap configs))
      \<and> (caseClassAndNameToIdMap configs = JUndefined
           \<or> mappingOfMappings (caseClassAndNameToIdMap configs)))"

text \<open>
  A name under which plain objects inherit a truthy property (\<open>constructor\<close>,
  \<open>toString\<close>, ...): a read under it never finds nothing.
\<close>

definition inheritedName :: "runtime \<Rightarrow> string \<Rightarrow> bool" where
  "inheritedName rt k = truthy (Object_prototype rt k)"

text \<open>A testcase whose decoded class and name are not inherited names.\<close>

definition plainNames :: "runtime \<Rightarrow> node \<Rightarrow> bool" where
  "plainNames rt testcase =
     (\<not> inheritedName rt (HtmlEntities_decode rt (attributes testcase ''class''))
      \<and> \<not> inheritedName rt (HtmlEntities_decode rt (attributes testcase ''name'')))"

text \<open>A testcase is resolvable when the resolver returns a truthy value for it.\<close>

definition resolvable :: "runtime \<Rightarrow> configs \<Rightarrow> node \<Rightarrow> bool" where
  "resolvable rt configs testcase = truthy (resolveCaseIdFromTestCase rt configs testcase)"

text \<open>
  The testcase entries of a document, in document order: the children tagged
  \<open>testcase\<close> of a \<open>testsuite\<close>, and the entries of every child of a \<open>testsuites\<close>.
\<close>

fun testcaseEntries :: "node \<Rightarrow> node list" where
  "testcaseEntries (Node nm attrs cs) =
     (if nm = ''testsuite'' then filter (\<lambda>c. name c = ''testcase'') cs
      else if nm = ''testsuites'' then concat (map testcaseEntries cs)
      else [])"

text \<open>
  The documents the extraction goes through without \<open>Invalid xml\<close>: a \<open>testsuite\<close> with
  at least one child, or a \<open>testsuites\<close> all of whose children are such documents.
\<close>

fun accepted :: "node \<Rightarrow> bool" where
  "accepted (Node nm attrs cs) =
     (if nm = ''testsuite'' \<and> cs \<noteq> [] then True
      else if nm = ''testsuites'' then list_all accepted cs
      else False)"

text \<open>What the extraction adds for a document: the results of its resolvable entries.\<close>

definition emitted :: "runtime \<Rightarrow> configs \<Rightarrow> node \<Rightarrow> caseResult list" where
  "emitted rt configs doc =
     map (testcaseResult rt configs) (filter (resolvable rt configs) (testcaseEntries doc))"








text \<open>
  A response that makes a command retry: it parses, reading its property does not
  throw, and it fails the command's test of success.
\<close>

definition initFails :: "(string \<Rightarrow> jsval option) \<Rightarrow> jsval \<Rightarrow> bool" where
  "initFails JSON_parse raw =
     (case parseResponse JSON_parse raw of
        None \<Rightarrow> False
      | Some response \<Rightarrow> \<not> nullish response \<and> \<not> truthy (property response ''id''))"

definition closeFails :: "(string \<Rightarrow> jsval option) \<Rightarrow> jsval \<Rightarrow> bool" where
  "closeFails JSON_parse raw =
     (case parseResponse JSON_parse raw of
        None \<Rightarrow> False
      | Some response \<Rightarrow> \<not> nullish response \<and> \<not> truthy (property response ''completed_on''))"

definition uploadFails :: "(string \<Rightarrow> jsval option) \<Rightarrow> jsval \<Rightarrow> bool" where
  "uploadFails JSON_parse raw =
     (case parseResponse JSON_parse raw of
        None \<Rightarrow> False
      | Some response \<Rightarrow> \<not> nullish response \<and> \<not> nonEmptyArray response)"

text \<open>A response that ends a command with success.\<close>

definition initSucceeds :: "(string \<Rightarrow> jsval option) \<Rightarrow> jsval \<Rightarrow> bool" where
  "initSucceeds JSON_parse raw =
     (case parseResponse JSON_parse raw of
        None \<Rightarrow> False
      | Some response \<Rightarrow> \<not> nullish response \<and> truthy (property response ''id''))"

definition closeSucceeds :: "(string \<Rightarrow> jsval option) \<Rightarrow> jsval \<Rightarrow> bool" where
  "closeSucceeds JSON_parse raw =
     (case parseResponse JSON_parse raw of
        None \<Rightarrow> False
      | Some response \<Rightarrow> \<not> nullish response \<and> truthy (property response ''completed_on''))"

definition uploadSucceeds :: "(string \<Rightarrow> jsval option) \<Rightarrow> jsval \<Rightarrow> bool" where
  "uploadSucceeds JSON_parse raw =
     (case parseResponse JSON_parse raw of
        None \<Rightarrow> False
      | Some response \<Rightarrow> nonEmptyArray response)"

text \<open>What a successful response makes the command print.\<close>

definition idOf :: "(string \<Rightarrow> jsval option) \<Rightarrow> jsval \<Rightarrow> jsval" where
  "idOf JSON_parse raw =
     (case parseResponse JSON_parse raw of
        None \<Rightarrow> JUndefined
      | Some response \<Rightarrow> property response ''id'')"

definition lengthOf :: "(string \<Rightarrow> jsval option) \<Rightarrow> jsval \<Rightarrow> nat" where
  "lengthOf JSON_parse raw =
     (case parseResponse JSON_parse raw of
        None \<Rightarrow> 0
      | Some response \<Rightarrow> arrayLength response)"

text \<open>The \<open>error\<close> property of a response, as the last message prints it.\<close>

definition errorOf :: "(string \<Rightarrow> jsval option) \<Rightarrow> jsval \<Rightarrow> jsval" where
  "errorOf JSON_parse raw =
     (case parseResponse JSON_parse raw of
        None \<Rightarrow> JUndefined
      | Some response \<Rightarrow> property response ''error'')"

definition initialState :: state where
  "initialState = \<lparr> apiCallsAttempted = 0, requests = [] \<rparr>"

section \<open>Concrete inputs\<close>

text \<open>
  Instances of the parameters for concrete runs. Each gives the value of the library or
  of the runtime at the inputs used below, and a filler elsewhere: the decoder on text
  that holds no entity, the numeric value of five time strings, the text of \<open>10^21\<close>
  and of \<open>2^64\<close>,
  the properties inherited under \<open>constructor\<close> and \<open>toString\<close>, a JSON parser for a
  service that answers with structured data only, and three services.
\<close>

definition plainDecode :: "string option \<Rightarrow> string" where
  "plainDecode v = (case v of None \<Rightarrow> [] | Some s \<Rightarrow> s)"

definition sampleToNumber :: "string \<Rightarrow> jsnum" where
  "sampleToNumber s =
     (if s = ''0'' then Fin 0
      else if s = ''4.2'' then Fin (21 / 5)
      else if s = ''119.01'' then Fin (11901 / 100)
      else if s = ''1e21'' then Fin 1000000000000000000000
      else if s = ''18446744073709551616'' then Fin 18446744073709551616
      else NaN)"

definition sampleNumberToString :: "int \<Rightarrow> string" where
  "sampleNumberToString n =
     (if n = 1000000000000000000000 then ''1e+21''
      else if n = 18446744073709551616 then ''18446744073709552000''
      else [])"

definition samplePrototype :: "string \<Rightarrow> jsval" where
  "samplePrototype k =
     (if k = ''constructor'' then JFunction ''Object''
      else if k = ''toString'' then JFunction ''toString''
      else JUndefined)"

definition sampleRuntime :: runtime where
  "sampleRuntime =
     \<lparr> HtmlEntities_decode = plainDecode,
       ToNumber = sampleToNumber,
       NumberToString = sampleNumberToString,
       Object_prototype = samplePrototype,
       GetOther = (\<lambda>v k. JUndefined) \<rparr>"

definition noTextResponses :: "string \<Rightarrow> jsval option" where
  "noTextResponses text = None"

definition failingService :: "request list \<Rightarrow> jsval" where
  "failingService history = JObj [(''error'', JStr ''Service unavailable'')]"

definition acceptingService :: "request list \<Rightarrow> jsval" where
  "acceptingService history = JArr [JObj [(''id'', JNum (Fin 1))]]"

definition successFor :: "request \<Rightarrow> jsval" where
  "successFor r =
     (case r of
        AddRun projectId suiteId runName description milestoneId \<Rightarrow> JObj [(''id'', JNum (Fin 42))]
      | CloseRun runId \<Rightarrow> JObj [(''completed_on'', JNum (Fin 1700000000))]
      | AddResultsForCases runId caseResults \<Rightarrow> JArr [JObj [(''id'', JNum (Fin 1))]])"

definition recoveringService :: "request list \<Rightarrow> jsval" where
  "recoveringService history =
     (if length history < 5 then JObj [(''error'', JStr ''Service unavailable'')]
      else successFor (last history))"

definition sampleConfigs :: configs where
  "sampleConfigs =
     \<lparr> caseNameToIdMap = JUndefined,
       caseClassAndNameToIdMap = JObj [(''C'', JObj [(''A'', JNum (Fin 7))])] \<rparr>"

definition zeroClassConfigs :: configs where
  "zeroClassConfigs =
     \<lparr> caseNameToIdMap = JObj [(''A'', JNum (Fin 9))],
       caseClassAndNameToIdMap = JObj [(''C'', JObj [(''A'', JNum (Fin 0))])] \<rparr>"

definition zeroOnlyConfigs :: configs where
  "zeroOnlyConfigs =
     \<lparr> caseNameToIdMap = JObj [(''A'', JNum (Fin 0))],
       caseClassAndNameToIdMap = JObj [(''C'', JObj [(''A'', JNum (Fin 0))])] \<rparr>"

definition inheritedNameConfigs :: configs where
  "inheritedNameConfigs =
     \<lparr> caseNameToIdMap = JObj [(''toString'', JNum (Fin 9))],
       caseClassAndNameToIdMap = JObj [(''C'', JObj [])] \<rparr>"

definition zeroConstructorConfigs :: configs where
  "zeroConstructorConfigs =
     \<lparr> caseNameToIdMap = JObj [(''constructor'', JNum (Fin 0))],
       caseClassAndNameToIdMap = JUndefined \<rparr>"

definition emptyFlatConfigs :: configs where
  "emptyFlatConfigs = \<lparr> caseNameToIdMap = JObj [], caseClassAndNameToIdMap = JUndefined \<rparr>"

definition testcaseOf :: "string \<Rightarrow> string \<Rightarrow> node" where
  "testcaseOf testClass testName =
     Node ''testcase'' [''name'' \<mapsto> testName, ''class'' \<mapsto> testClass] []"

definition testcaseCA :: "(string \<rightharpoonup> string) \<Rightarrow> node list \<Rightarrow> node" where
  "testcaseCA extra cs = Node ''testcase'' (extra(''name'' \<mapsto> ''A'', ''class'' \<mapsto> ''C'')) cs"

definition testcaseUnmapped :: node where
  "testcaseUnmapped = Node ''testcase'' [''name'' \<mapsto> ''B'', ''class'' \<mapsto> ''C''] []"


definition suiteOf :: "node list \<Rightarrow> node" where
  "suiteOf cs = Node ''testsuite'' Map.empty cs"

definition sampleSuite :: node where
  "sampleSuite = suiteOf [testcaseCA [''time'' \<mapsto> ''0''] []]"

definition mixedSuite :: node where
  "mixedSuite = suiteOf [testcaseCA Map.empty [], testcaseUnmapped, testcaseCA Map.empty []]"

definition twoSuites :: node where
  "twoSuites = Node ''testsuites'' Map.empty [suiteOf [testcaseCA Map.empty []], sampleSuite]"

definition suitesWithEmptySuite :: node where
  "suitesWithEmptySuite = Node ''testsuites'' Map.empty [sampleSuite, suiteOf []]"

section \<open>Lemmas on numerals\<close>

lemma natToString_digit: "n < 10 \<Longrightarrow> natToString n = [digitChar n]"
  by (simp add: natToString.simps)


lemma intToString_0: "intToString 0 = ''0''"
  by (simp add: intToString_def natToString_digit digitChar_def)

lemma intToString_1: "intToString 1 = ''1''"
  by (simp add: intToString_def natToString_digit digitChar_def)














section \<open>Lemmas on resolution and extraction\<close>

lemma ownEntry_Some_plain: "ownEntry t k = Some v \<Longrightarrow> plainObject t"
  by (cases t) simp_all

lemma Get_own: "ownEntry t k = Some v \<Longrightarrow> Get rt t k = v"
  by (cases t) simp_all

lemma Get_not_own:
  "plainObject t \<Longrightarrow> ownEntry t k = None \<Longrightarrow> Get rt t k = Object_prototype rt k"
  by (cases t) simp_all

lemma truthy_plainObject: "plainObject t \<Longrightarrow> truthy t"
  by (cases t) simp_all


lemma resolve_class_entry:
  assumes "classQualifiedEntry configs (HtmlEntities_decode rt (attributes tc ''class''))
      (HtmlEntities_decode rt (attributes tc ''name'')) = Some v"
  shows "resolveCaseIdFromTestCase rt configs tc =
     (if truthy v then v
      else if truthy (caseNameToIdMap configs)
         \<and> truthy (Get rt (caseNameToIdMap configs) (HtmlEntities_decode rt (attributes tc ''name'')))
      then Get rt (caseNameToIdMap configs) (HtmlEntities_decode rt (attributes tc ''name''))
      else JNull)"
proof -
  let ?c = "HtmlEntities_decode rt (attributes tc ''class'')"
  let ?n = "HtmlEntities_decode rt (attributes tc ''name'')"
  obtain byName where b: "ownEntry (caseClassAndNameToIdMap configs) ?c = Some byName"
    and n: "ownEntry byName ?n = Some v"
    using assms by (auto simp: classQualifiedEntry_def split: option.splits)
  have 1: "truthy (caseClassAndNameToIdMap configs)"
    using b by (intro truthy_plainObject) (rule ownEntry_Some_plain)
  have 2: "Get rt (caseClassAndNameToIdMap configs) ?c = byName"
    using b by (rule Get_own)
  have 3: "truthy byName"
    using n by (intro truthy_plainObject) (rule ownEntry_Some_plain)
  have 4: "Get rt byName ?n = v"
    using n by (rule Get_own)
  show ?thesis
    by (simp add: resolveCaseIdFromTestCase_def Let_def 1 2 3 4)
qed

lemma flat_read:
  assumes "caseNameToIdMap configs = JUndefined \<or> plainObject (caseNameToIdMap configs)"
    and "\<not> inheritedName rt k"
  shows "(if truthy (caseNameToIdMap configs) \<and> truthy (Get rt (caseNameToIdMap configs) k)
          then Get rt (caseNameToIdMap configs) k else JNull) =
         (case flatEntry configs k of
            None \<Rightarrow> JNull
          | Some w \<Rightarrow> if truthy w then w else JNull)"
proof (cases "flatEntry configs k")
  case None
  then show ?thesis
    using assms
    by (auto simp: flatEntry_def inheritedName_def Get_not_own)
next
  case (Some w)
  then have "Get rt (caseNameToIdMap configs) k = w" "truthy (caseNameToIdMap configs)"
    by (auto simp: flatEntry_def Get_own intro: truthy_plainObject ownEntry_Some_plain)
  then show ?thesis using Some by simp
qed

lemma mappingOfMappings_entry:
  "mappingOfMappings t \<Longrightarrow> ownEntry t k = Some byName \<Longrightarrow> plainObject byName"
proof (cases t)
  case (JObj ps)
  assume "mappingOfMappings t" "ownEntry t k = Some byName"
  then have "(k, byName) \<in> set ps" "\<forall>p\<in>set ps. plainObject (snd p)"
    using JObj by (auto simp: list_all_iff dest: map_of_SomeD)
  then show ?thesis by force
qed simp_all

lemma mappingOfMappings_plain: "mappingOfMappings t \<Longrightarrow> plainObject t"
  by (cases t) simp_all

text \<open>
  On tables shaped as the data model has them, and for a class and a name that are not
  inherited names, the resolver sees the own entries only.
\<close>

lemma resolve_own:
  assumes wf: "wellFormedTables configs"
    and c: "\<not> inheritedName rt (HtmlEntities_decode rt (attributes tc ''class''))"
    and n: "\<not> inheritedName rt (HtmlEntities_decode rt (attributes tc ''name''))"
  shows "resolveCaseIdFromTestCase rt configs tc =
     (if truthyEntry (classQualifiedEntry configs (HtmlEntities_decode rt (attributes tc ''class''))
           (HtmlEntities_decode rt (attributes tc ''name'')))
      then the (classQualifiedEntry configs (HtmlEntities_decode rt (attributes tc ''class''))
           (HtmlEntities_decode rt (attributes tc ''name'')))
      else if truthyEntry (flatEntry configs (HtmlEntities_decode rt (attributes tc ''name'')))
      then the (flatEntry configs (HtmlEntities_decode rt (attributes tc ''name'')))
      else JNull)"
proof -
  let ?c = "HtmlEntities_decode rt (attributes tc ''class'')"
  let ?n = "HtmlEntities_decode rt (attributes tc ''name'')"
  let ?T = "caseClassAndNameToIdMap configs"
  have flat: "(if truthy (caseNameToIdMap configs) \<and> truthy (Get rt (caseNameToIdMap configs) ?n)
        then Get rt (caseNameToIdMap configs) ?n else JNull) =
      (if truthyEntry (flatEntry configs ?n) then the (flatEntry configs ?n) else JNull)"
    using wf n by (subst flat_read) (auto simp: wellFormedTables_def truthyEntry_def split: option.splits)
  show ?thesis
  proof (cases "classQualifiedEntry configs ?c ?n")
    case (Some v)
    then show ?thesis
      using flat by (simp add: resolve_class_entry truthyEntry_def)
  next
    case None
    have "\<not> (truthy ?T \<and> truthy (Get rt ?T ?c) \<and> truthy (Get rt (Get rt ?T ?c) ?n))"
    proof (cases "?T = JUndefined")
      case True
      then show ?thesis by simp
    next
      case False
      then have mm: "mappingOfMappings ?T" using wf by (simp add: wellFormedTables_def)
      show ?thesis
      proof (cases "ownEntry ?T ?c")
        case None
        then have "Get rt ?T ?c = Object_prototype rt ?c"
          using mm by (intro Get_not_own mappingOfMappings_plain)
        then show ?thesis using c by (simp add: inheritedName_def)
      next
        case (Some byName)
        then have g: "Get rt ?T ?c = byName" by (rule Get_own)
        have p: "plainObject byName" using mm Some by (rule mappingOfMappings_entry)
        have "ownEntry byName ?n = None"
          using \<open>classQualifiedEntry configs ?c ?n = None\<close> Some
          by (simp add: classQualifiedEntry_def)
        then have "Get rt byName ?n = Object_prototype rt ?n"
          using p by (intro Get_not_own)
        then show ?thesis using n g by (simp add: inheritedName_def)
      qed
    qed
    then have "resolveCaseIdFromTestCase rt configs tc =
        (if truthy (caseNameToIdMap configs) \<and> truthy (Get rt (caseNameToIdMap configs) ?n)
         then Get rt (caseNameToIdMap configs) ?n else JNull)"
      unfolding resolveCaseIdFromTestCase_def Let_def by (rule if_not_P)
    then show ?thesis
      using None by (simp only: flat) (simp add: truthyEntry_def)
  qed
qed

lemma case_id_testcaseResult:
  "case_id (testcaseResult rt configs tc) = resolveCaseIdFromTestCase rt configs tc"
  by (simp add: testcaseResult_def)

lemma version_testcaseResult: "version (testcaseResult rt configs tc) = None"
  by (simp add: testcaseResult_def)

lemma forEach_testcase_filter:
  "forEach_testcase rt configs cs acc =
     acc @ map (testcaseResult rt configs)
       (filter (resolvable rt configs) (filter (\<lambda>c. name c = ''testcase'') cs))"
  by (induction cs arbitrary: acc) (simp_all add: case_id_testcaseResult resolvable_def)

lemma parse_accepted:
  "accepted doc \<Longrightarrow>
     parseXmlIntoCaseResults rt configs doc acc = Inr (acc @ emitted rt configs doc)"
  "list_all accepted suites \<Longrightarrow>
     forEach_testSuite rt configs suites acc =
       Inr (acc @ concat (map (emitted rt configs) suites))"
proof (induction rt configs doc acc and rt configs suites acc
    rule: parseXmlIntoCaseResults_forEach_testSuite.induct)
  case (1 rt configs nm attrs cs caseResults)
  then show ?case
    by (auto simp: emitted_def forEach_testcase_filter map_concat filter_concat comp_def
        split: if_splits)
next
  case (2 rt configs caseResults)
  then show ?case by simp
next
  case (3 rt configs testSuite rest caseResults)
  then show ?case by simp
qed

lemma parse_rejected:
  "\<not> accepted doc \<Longrightarrow> parseXmlIntoCaseResults rt configs doc acc = Inl InvalidXml"
  "\<not> list_all accepted suites \<Longrightarrow> forEach_testSuite rt configs suites acc = Inl InvalidXml"
proof (induction rt configs doc acc and rt configs suites acc
    rule: parseXmlIntoCaseResults_forEach_testSuite.induct)
  case (1 rt configs nm attrs cs caseResults)
  then show ?case by (auto split: if_splits)
next
  case (2 rt configs caseResults)
  then show ?case by simp
next
  case (3 rt configs testSuite rest caseResults)
  then show ?case
    by (cases "accepted testSuite") (auto simp: parse_accepted split: sum.splits)
qed

lemma forEach_fileContents_testSuite:
  "forEach_fileContents rt configs roots acc = forEach_testSuite rt configs roots acc"
  by (induction roots arbitrary: acc) (simp_all split: sum.splits)

lemma forEach_fileContents_Inr:
  assumes "forEach_fileContents rt configs roots acc = Inr rs"
  shows "list_all accepted roots \<and> rs = acc @ concat (map (emitted rt configs) roots)"
proof (cases "list_all accepted roots")
  case True
  then show ?thesis
    using assms by (simp add: forEach_fileContents_testSuite parse_accepted(2))
next
  case False
  then show ?thesis
    using assms by (simp add: forEach_fileContents_testSuite parse_rejected(2))
qed

lemma version_emitted: "list_all (\<lambda>r. version r = None) (emitted rt configs doc)"
  by (simp add: emitted_def list_all_iff version_testcaseResult)

lemma version_part_000_testcases:
  "forEach_testcase_part_000 rt configs cs acc = Inr rs \<Longrightarrow>
   list_all (\<lambda>r. version r = Some ''test'') acc \<Longrightarrow>
   list_all (\<lambda>r. version r = Some ''test'') rs"
proof (induction cs arbitrary: acc)
  case Nil
  then show ?case by simp
next
  case (Cons c cs)
  then show ?case
    by (auto simp: testcaseResult_part_000_def split: if_splits)
qed

lemma version_part_000_files:
  "forEach_fileContents_part_000 rt configs roots acc = Inr rs \<Longrightarrow>
   list_all (\<lambda>r. version r = Some ''test'') acc \<Longrightarrow>
   list_all (\<lambda>r. version r = Some ''test'') rs"
proof (induction roots arbitrary: acc)
  case Nil
  then show ?case by simp
next
  case (Cons x roots)
  then show ?case
    by (auto split: if_splits sum.splits dest: version_part_000_testcases)
qed

lemma forEach_testSuite_concat:
  "list_all (\<lambda>s. \<not> isl (parseXmlIntoCaseResults rt configs s [])) suites \<Longrightarrow>
   forEach_testSuite rt configs suites acc =
     Inr (acc @ concat (map (\<lambda>s. projr (parseXmlIntoCaseResults rt configs s [])) suites))"
proof -
  assume ok: "list_all (\<lambda>s. \<not> isl (parseXmlIntoCaseResults rt configs s [])) suites"
  have acc: "list_all accepted suites"
    unfolding list_all_iff
  proof
    fix s assume "s \<in> set suites"
    with ok have "\<not> isl (parseXmlIntoCaseResults rt configs s [])"
      by (simp add: list_all_iff)
    then show "accepted s"
      using parse_rejected(1) [of s rt configs "[]"] by (cases "accepted s") auto
  qed
  have eq: "map (\<lambda>s. projr (parseXmlIntoCaseResults rt configs s [])) suites =
        map (emitted rt configs) suites"
    using acc by (intro map_cong refl) (simp add: list_all_iff parse_accepted(1))
  show ?thesis
    unfolding eq using acc by (rule parse_accepted(2))
qed













section \<open>Lemmas on the retried calls\<close>

lemma closeTestRun_exhausts:
  assumes "truthy runId" and "\<And>h. closeFails JSON_parse (TestRail h)"
    and "n = maxCallAttemptsAllowed - apiCallsAttempted s"
    and "apiCallsAttempted s \<le> maxCallAttemptsAllowed"
  shows "closeTestRun JSON_parse TestRail runId s =
     (Exit1 (ErrorClosing (errorOf JSON_parse
         (TestRail (requests s @ replicate (Suc n) (CloseRun runId))))),
      s\<lparr>requests := requests s @ replicate (Suc n) (CloseRun runId),
        apiCallsAttempted := maxCallAttemptsAllowed\<rparr>)"
  using assms(3,4)
proof (induction n arbitrary: s)
  case 0
  then have eq: "apiCallsAttempted s = maxCallAttemptsAllowed" by simp
  have f: "closeFails JSON_parse (TestRail (requests s @ [CloseRun runId]))" by (rule assms(2))
  show ?case
    using f assms(1) eq
    by (subst closeTestRun.simps)
       (auto simp: closeFails_def errorOf_def Let_def split: option.splits)
next
  case (Suc n)
  let ?s2 = "s\<lparr>requests := requests s @ [CloseRun runId],
                 apiCallsAttempted := apiCallsAttempted s + 1\<rparr>"
  have lt: "apiCallsAttempted s < maxCallAttemptsAllowed" using Suc.prems by simp
  have f: "closeFails JSON_parse (TestRail (requests s @ [CloseRun runId]))" by (rule assms(2))
  have step: "closeTestRun JSON_parse TestRail runId s = closeTestRun JSON_parse TestRail runId ?s2"
    using f assms(1) lt
    by (subst closeTestRun.simps)
       (auto simp: closeFails_def Let_def split: option.splits)
  have "n = maxCallAttemptsAllowed - apiCallsAttempted ?s2" using Suc.prems by simp
  moreover have "apiCallsAttempted ?s2 \<le> maxCallAttemptsAllowed" using lt by simp
  ultimately show ?case
    using Suc.IH [of ?s2] step by simp
qed

lemma closeTestRun_succeeds:
  assumes "truthy runId"
  shows "(\<And>i. i < k \<Longrightarrow>
            closeFails JSON_parse (TestRail (requests s @ replicate (Suc i) (CloseRun runId)))) \<Longrightarrow>
         closeSucceeds JSON_parse (TestRail (requests s @ replicate (Suc k) (CloseRun runId))) \<Longrightarrow>
         apiCallsAttempted s + k \<le> maxCallAttemptsAllowed \<Longrightarrow>
         closeTestRun JSON_parse TestRail runId s =
           (Exit0 (ClosedRun runId),
            s\<lparr>requests := requests s @ replicate (Suc k) (CloseRun runId),
              apiCallsAttempted := apiCallsAttempted s + k\<rparr>)"
proof (induction k arbitrary: s)
  case 0
  then show ?case
    using assms
    by (subst closeTestRun.simps)
       (auto simp: closeSucceeds_def Let_def split: option.splits)
next
  case (Suc k)
  let ?s2 = "s\<lparr>requests := requests s @ [CloseRun runId],
                 apiCallsAttempted := apiCallsAttempted s + 1\<rparr>"
  have lt: "apiCallsAttempted s < maxCallAttemptsAllowed" using Suc.prems(3) by simp
  have f: "closeFails JSON_parse (TestRail (requests s @ [CloseRun runId]))"
    using Suc.prems(1) [of 0] by simp
  have step: "closeTestRun JSON_parse TestRail runId s = closeTestRun JSON_parse TestRail runId ?s2"
    using f assms lt
    by (subst closeTestRun.simps)
       (auto simp: closeFails_def Let_def split: option.splits)
  have a: "\<And>i. i < k \<Longrightarrow>
      closeFails JSON_parse (TestRail (requests ?s2 @ replicate (Suc i) (CloseRun runId)))"
    using Suc.prems(1) by (simp del: replicate.simps add: replicate_Suc [symmetric])
  have b: "closeSucceeds JSON_parse (TestRail (requests ?s2 @ replicate (Suc k) (CloseRun runId)))"
    using Suc.prems(2) by simp
  have c: "apiCallsAttempted ?s2 + k \<le> maxCallAttemptsAllowed"
    using Suc.prems(3) by simp
  show ?case
    using Suc.IH [of ?s2, OF a b c] step by simp
qed

lemma initializeTestRun_exhausts:
  assumes "truthy projectId \<and> truthy runName" and "\<And>h. initFails JSON_parse (TestRail h)"
    and "n = maxCallAttemptsAllowed - apiCallsAttempted s"
    and "apiCallsAttempted s \<le> maxCallAttemptsAllowed"
  shows "initializeTestRun JSON_parse TestRail projectId runName suiteId description milestoneId s =
     (Exit1 (ErrorInitializing (errorOf JSON_parse
         (TestRail (requests s @ replicate (Suc n)
            (AddRun projectId suiteId runName description milestoneId))))),
      s\<lparr>requests := requests s @ replicate (Suc n)
            (AddRun projectId suiteId runName description milestoneId),
        apiCallsAttempted := maxCallAttemptsAllowed\<rparr>)"
  using assms(3,4)
proof (induction n arbitrary: s)
  case 0
  then have eq: "apiCallsAttempted s = maxCallAttemptsAllowed" by simp
  have f: "initFails JSON_parse
      (TestRail (requests s @ [AddRun projectId suiteId runName description milestoneId]))"
    by (rule assms(2))
  show ?case
    using f assms(1) eq
    by (subst initializeTestRun.simps)
       (auto simp: initFails_def errorOf_def Let_def split: option.splits)
next
  case (Suc n)
  let ?s2 = "s\<lparr>requests := requests s @ [AddRun projectId suiteId runName description milestoneId],
                 apiCallsAttempted := apiCallsAttempted s + 1\<rparr>"
  have lt: "apiCallsAttempted s < maxCallAttemptsAllowed" using Suc.prems by simp
  have f: "initFails JSON_parse
      (TestRail (requests s @ [AddRun projectId suiteId runName description milestoneId]))"
    by (rule assms(2))
  have step: "initializeTestRun JSON_parse TestRail projectId runName suiteId description milestoneId s
      = initializeTestRun JSON_parse TestRail projectId runName suiteId description milestoneId ?s2"
    using f assms(1) lt
    by (subst initializeTestRun.simps)
       (auto simp: initFails_def Let_def split: option.splits)
  have "n = maxCallAttemptsAllowed - apiCallsAttempted ?s2" using Suc.prems by simp
  moreover have "apiCallsAttempted ?s2 \<le> maxCallAttemptsAllowed" using lt by simp
  ultimately show ?case
    using Suc.IH [of ?s2] step by simp
qed

lemma initializeTestRun_succeeds:
  assumes "truthy projectId \<and> truthy runName"
  shows "(\<And>i. i < k \<Longrightarrow>
            initFails JSON_parse (TestRail (requests s @ replicate (Suc i)
              (AddRun projectId suiteId runName description milestoneId)))) \<Longrightarrow>
         initSucceeds JSON_parse (TestRail (requests s @ replicate (Suc k)
              (AddRun projectId suiteId runName description milestoneId))) \<Longrightarrow>
         apiCallsAttempted s + k \<le> maxCallAttemptsAllowed \<Longrightarrow>
         initializeTestRun JSON_parse TestRail projectId runName suiteId description milestoneId s =
           (Exit0 (RunId (idOf JSON_parse (TestRail (requests s @ replicate (Suc k)
              (AddRun projectId suiteId runName description milestoneId))))),
            s\<lparr>requests := requests s @ replicate (Suc k)
                (AddRun projectId suiteId runName description milestoneId),
              apiCallsAttempted := apiCallsAttempted s + k\<rparr>)"
proof (induction k arbitrary: s)
  case 0
  then show ?case
    using assms
    by (subst initializeTestRun.simps)
       (auto simp: initSucceeds_def idOf_def Let_def split: option.splits)
next
  case (Suc k)
  let ?r = "AddRun projectId suiteId runName description milestoneId"
  let ?s2 = "s\<lparr>requests := requests s @ [?r], apiCallsAttempted := apiCallsAttempted s + 1\<rparr>"
  have lt: "apiCallsAttempted s < maxCallAttemptsAllowed" using Suc.prems(3) by simp
  have f: "initFails JSON_parse (TestRail (requests s @ [?r]))"
    using Suc.prems(1) [of 0] by simp
  have step: "initializeTestRun JSON_parse TestRail projectId runName suiteId description milestoneId s
      = initializeTestRun JSON_parse TestRail projectId runName suiteId description milestoneId ?s2"
    using f assms lt
    by (subst initializeTestRun.simps)
       (auto simp: initFails_def Let_def split: option.splits)
  have a: "\<And>i. i < k \<Longrightarrow>
      initFails JSON_parse (TestRail (requests ?s2 @ replicate (Suc i) ?r))"
    using Suc.prems(1) by (simp del: replicate.simps add: replicate_Suc [symmetric])
  have b: "initSucceeds JSON_parse (TestRail (requests ?s2 @ replicate (Suc k) ?r))"
    using Suc.prems(2) by simp
  have c: "apiCallsAttempted ?s2 + k \<le> maxCallAttemptsAllowed"
    using Suc.prems(3) by simp
  show ?case
    using Suc.IH [of ?s2, OF a b c] step by simp
qed

lemma addResultsForCasesAttempt_exhausts:
  assumes "\<And>h. uploadFails JSON_parse (TestRail h)"
    and "n = maxCallAttemptsAllowed - apiCallsAttempted s"
    and "apiCallsAttempted s \<le> maxCallAttemptsAllowed"
  shows "addResultsForCasesAttempt JSON_parse TestRail runId caseResults s =
     (Exit1 (ErrorUploading (errorOf JSON_parse
         (TestRail (requests s @ replicate (Suc n) (AddResultsForCases runId caseResults))))),
      s\<lparr>requests := requests s @ replicate (Suc n) (AddResultsForCases runId caseResults),
        apiCallsAttempted := maxCallAttemptsAllowed\<rparr>)"
  using assms(2,3)
proof (induction n arbitrary: s)
  case 0
  then have eq: "apiCallsAttempted s = maxCallAttemptsAllowed" by simp
  have f: "uploadFails JSON_parse (TestRail (requests s @ [AddResultsForCases runId caseResults]))"
    by (rule assms(1))
  show ?case
    using f eq
    by (subst addResultsForCasesAttempt.simps)
       (auto simp: uploadFails_def errorOf_def Let_def split: option.splits)
next
  case (Suc n)
  let ?s2 = "s\<lparr>requests := requests s @ [AddResultsForCases runId caseResults],
                 apiCallsAttempted := apiCallsAttempted s + 1\<rparr>"
  have lt: "apiCallsAttempted s < maxCallAttemptsAllowed" using Suc.prems by simp
  have f: "uploadFails JSON_parse (TestRail (requests s @ [AddResultsForCases runId caseResults]))"
    by (rule assms(1))
  have step: "addResultsForCasesAttempt JSON_parse TestRail runId caseResults s =
      addResultsForCasesAttempt JSON_parse TestRail runId caseResults ?s2"
    using f lt
    by (subst addResultsForCasesAttempt.simps)
       (auto simp: uploadFails_def Let_def split: option.splits)
  have "n = maxCallAttemptsAllowed - apiCallsAttempted ?s2" using Suc.prems by simp
  moreover have "apiCallsAttempted ?s2 \<le> maxCallAttemptsAllowed" using lt by simp
  ultimately show ?case
    using Suc.IH [of ?s2] step by simp
qed

lemma addResultsForCasesAttempt_succeeds:
  "(\<And>i. i < k \<Longrightarrow>
      uploadFails JSON_parse (TestRail (requests s @ replicate (Suc i)
        (AddResultsForCases runId caseResults)))) \<Longrightarrow>
   uploadSucceeds JSON_parse (TestRail (requests s @ replicate (Suc k)
        (AddResultsForCases runId caseResults))) \<Longrightarrow>
   apiCallsAttempted s + k \<le> maxCallAttemptsAllowed \<Longrightarrow>
   addResultsForCasesAttempt JSON_parse TestRail runId caseResults s =
     (Exit0 (Uploaded (lengthOf JSON_parse (TestRail (requests s @ replicate (Suc k)
        (AddResultsForCases runId caseResults))))),
      s\<lparr>requests := requests s @ replicate (Suc k) (AddResultsForCases runId caseResults),
        apiCallsAttempted := apiCallsAttempted s + k\<rparr>)"
proof (induction k arbitrary: s)
  case 0
  then show ?case
    by (subst addResultsForCasesAttempt.simps)
       (auto simp: uploadSucceeds_def lengthOf_def Let_def split: option.splits)
next
  case (Suc k)
  let ?r = "AddResultsForCases runId caseResults"
  let ?s2 = "s\<lparr>requests := requests s @ [?r], apiCallsAttempted := apiCallsAttempted s + 1\<rparr>"
  have lt: "apiCallsAttempted s < maxCallAttemptsAllowed" using Suc.prems(3) by simp
  have f: "uploadFails JSON_parse (TestRail (requests s @ [?r]))"
    using Suc.prems(1) [of 0] by simp
  have step: "addResultsForCasesAttempt JSON_parse TestRail runId caseResults s =
      addResultsForCasesAttempt JSON_parse TestRail runId caseResults ?s2"
    using f lt
    by (subst addResultsForCasesAttempt.simps)
       (auto simp: uploadFails_def Let_def split: option.splits)
  have a: "\<And>i. i < k \<Longrightarrow>
      uploadFails JSON_parse (TestRail (requests ?s2 @ replicate (Suc i) ?r))"
    using Suc.prems(1) by (simp del: replicate.simps add: replicate_Suc [symmetric])
  have b: "uploadSucceeds JSON_parse (TestRail (requests ?s2 @ replicate (Suc k) ?r))"
    using Suc.prems(2) by simp
  have c: "apiCallsAttempted ?s2 + k \<le> maxCallAttemptsAllowed"
    using Suc.prems(3) by simp
  show ?case
    using Suc.IH [of ?s2, OF a b c] step by simp
qed

text \<open>Every call of the upload loop carries the whole batch, and there is at least one.\<close>

lemma addResultsForCasesAttempt_requests:
  "\<exists>k. 1 \<le> k \<and> k \<le> Suc (maxCallAttemptsAllowed - apiCallsAttempted s) \<and>
     requests (snd (addResultsForCasesAttempt JSON_parse TestRail runId caseResults s)) =
       requests s @ replicate k (AddResultsForCases runId caseResults)"
proof (induction JSON_parse TestRail runId caseResults s rule: addResultsForCasesAttempt.induct)
  case (1 JSON_parse TestRail runId caseResults s)
  let ?r = "AddResultsForCases runId caseResults"
  let ?s1 = "s\<lparr>requests := requests s @ [?r]\<rparr>"
  let ?s2 = "?s1\<lparr>apiCallsAttempted := apiCallsAttempted ?s1 + 1\<rparr>"
  show ?case
  proof (cases "parseResponse JSON_parse (TestRail (requests ?s1))")
    case None
    then have "requests (snd (addResultsForCasesAttempt JSON_parse TestRail runId caseResults s)) =
        requests s @ replicate 1 ?r"
      by (subst addResultsForCasesAttempt.simps) (simp add: Let_def)
    then show ?thesis by (intro exI [of _ 1]) simp
  next
    case (Some response)
    show ?thesis
    proof (cases "\<not> nonEmptyArray response \<and> apiCallsAttempted ?s1 < maxCallAttemptsAllowed")
      case True
      then obtain k where k: "1 \<le> k" "k \<le> Suc (maxCallAttemptsAllowed - apiCallsAttempted ?s2)"
        "requests (snd (addResultsForCasesAttempt JSON_parse TestRail runId caseResults ?s2)) =
           requests ?s2 @ replicate k ?r"
        using "1.IH" [of ?s1 response] Some by auto
      have "addResultsForCasesAttempt JSON_parse TestRail runId caseResults s =
          addResultsForCasesAttempt JSON_parse TestRail runId caseResults ?s2"
        using Some True by (subst addResultsForCasesAttempt.simps) (simp add: Let_def)
      then have "requests (snd (addResultsForCasesAttempt JSON_parse TestRail runId caseResults s)) =
          requests s @ replicate (Suc k) ?r"
        using k(3) by simp
      moreover have "Suc k \<le> Suc (maxCallAttemptsAllowed - apiCallsAttempted s)"
        using k(2) True by (simp, arith)
      ultimately show ?thesis by (intro exI [of _ "Suc k"]) simp
    next
      case False
      then have "requests (snd (addResultsForCasesAttempt JSON_parse TestRail runId caseResults s)) =
          requests s @ replicate 1 ?r"
        using Some by (subst addResultsForCasesAttempt.simps) (auto simp: Let_def)
      then show ?thesis by (intro exI [of _ 1]) simp
    qed
  qed
qed

section \<open>Evaluation on the concrete inputs\<close>

lemma sampleRuntime_fields:
  "HtmlEntities_decode sampleRuntime = plainDecode"
  "ToNumber sampleRuntime = sampleToNumber"
  "NumberToString sampleRuntime = sampleNumberToString"
  "Object_prototype sampleRuntime = samplePrototype"
  "GetOther sampleRuntime = (\<lambda>v k. JUndefined)"
  by (simp_all add: sampleRuntime_def)

lemma resolve_sample:
  "resolveCaseIdFromTestCase sampleRuntime sampleConfigs (testcaseCA extra cs) = JNum (Fin 7)"
  by (simp add: resolveCaseIdFromTestCase_def sampleRuntime_fields plainDecode_def
      sampleConfigs_def testcaseCA_def)

lemma resolve_unmapped:
  "resolveCaseIdFromTestCase sampleRuntime sampleConfigs testcaseUnmapped = JNull"
  by (simp add: resolveCaseIdFromTestCase_def sampleRuntime_fields plainDecode_def
      samplePrototype_def sampleConfigs_def testcaseUnmapped_def)

lemma result_sample:
  "testcaseResult sampleRuntime sampleConfigs (testcaseCA [''time'' \<mapsto> ''0''] []) =
     \<lparr> case_id = JNum (Fin 7), elapsed = Some ''1s'', status_id = 1, comment = None,
       version = None \<rparr>"
  by (simp add: testcaseResult_def resolve_sample)
     (simp add: testcaseCA_def sampleRuntime_fields sampleToNumber_def Math_ceil_toString_def
        integerToString_def intToString_1)

lemma result_sample_untimed:
  "testcaseResult sampleRuntime sampleConfigs (testcaseCA Map.empty []) =
     \<lparr> case_id = JNum (Fin 7), elapsed = None, status_id = 1, comment = None, version = None \<rparr>"
  by (simp add: testcaseResult_def resolve_sample) (simp add: testcaseCA_def)

lemma extract_sample:
  "forEach_fileContents sampleRuntime sampleConfigs [sampleSuite] [] =
     Inr [\<lparr> case_id = JNum (Fin 7), elapsed = Some ''1s'', status_id = 1, comment = None,
            version = None \<rparr>]"
  by (simp add: sampleSuite_def suiteOf_def result_sample)
     (simp add: testcaseCA_def)

lemma extract_unmapped:
  "forEach_fileContents sampleRuntime sampleConfigs [suiteOf [testcaseUnmapped]] [] = Inr []"
  by (simp add: suiteOf_def case_id_testcaseResult resolve_unmapped)

lemma entries_mixed:
  "testcaseEntries mixedSuite = [testcaseCA Map.empty [], testcaseUnmapped, testcaseCA Map.empty []]"
  by (simp add: mixedSuite_def suiteOf_def testcaseCA_def testcaseUnmapped_def)

lemma initialState_counter:
  "apiCallsAttempted initialState = 0" "requests initialState = []"
  by (simp_all add: initialState_def)

lemma failingService_fails:
  "initFails noTextResponses (failingService h)"
  "closeFails noTextResponses (failingService h)"
  "uploadFails noTextResponses (failingService h)"
  by (simp_all add: initFails_def closeFails_def uploadFails_def failingService_def
      parseResponse_def)

lemma recoveringService_fails:
  "length h < 5 \<Longrightarrow> initFails noTextResponses (recoveringService h)"
  "length h < 5 \<Longrightarrow> closeFails noTextResponses (recoveringService h)"
  "length h < 5 \<Longrightarrow> uploadFails noTextResponses (recoveringService h)"
  by (simp_all add: initFails_def closeFails_def uploadFails_def recoveringService_def
      parseResponse_def)

lemma recoveringService_succeeds:
  "initSucceeds noTextResponses (recoveringService (replicate 5 (AddRun p su n d m)))"
  "closeSucceeds noTextResponses (recoveringService (replicate 5 (CloseRun r)))"
  "uploadSucceeds noTextResponses (recoveringService (replicate 5 (AddResultsForCases r rs)))"
  by (simp_all add: initSucceeds_def closeSucceeds_def uploadSucceeds_def recoveringService_def
      successFor_def parseResponse_def)

lemma sample_tables:
  "wellFormedTables sampleConfigs" "wellFormedTables zeroClassConfigs"
  "wellFormedTables zeroOnlyConfigs" "wellFormedTables inheritedNameConfigs"
  "wellFormedTables zeroConstructorConfigs" "wellFormedTables emptyFlatConfigs"
  by (simp_all add: wellFormedTables_def sampleConfigs_def zeroClassConfigs_def
      zeroOnlyConfigs_def inheritedNameConfigs_def zeroConstructorConfigs_def
      emptyFlatConfigs_def)

lemma sample_names:
  "HtmlEntities_decode sampleRuntime (attributes (testcaseCA extra cs) ''class'') = ''C''"
  "HtmlEntities_decode sampleRuntime (attributes (testcaseCA extra cs) ''name'') = ''A''"
  "HtmlEntities_decode sampleRuntime (attributes (testcaseOf c n) ''class'') = c"
  "HtmlEntities_decode sampleRuntime (attributes (testcaseOf c n) ''name'') = n"
  "plainNames sampleRuntime (testcaseCA extra cs)"
  by (simp_all add: sampleRuntime_fields plainDecode_def testcaseCA_def testcaseOf_def
      plainNames_def inheritedName_def samplePrototype_def)

section \<open>The claims\<close>

text \<open>
  Claim C1 on the code. From a fresh counter, a command whose every response fails
  calls the service six times before it gives up with the error of the sixth response:
  the test \<open>apiCallsAttempted < maxCallAttemptsAllowed\<close> is made before the counter is
  raised, so five retries follow the first call. A command whose first four responses
  fail and whose fifth succeeds ends with success after five calls. The same holds for
  \<open>init\<close>, \<open>finish\<close> and the upload of \<open>report\<close>.
\<close>

theorem C1_exhaustion_after_six_calls:
  "(truthy projectId \<and> truthy runName \<and> (\<forall>h. initFails JSON_parse (TestRail h)) \<longrightarrow>
      initializeTestRun JSON_parse TestRail projectId runName suiteId description milestoneId
          initialState =
        (Exit1 (ErrorInitializing (errorOf JSON_parse (TestRail
           (replicate 6 (AddRun projectId suiteId runName description milestoneId))))),
         \<lparr> apiCallsAttempted = 5,
           requests = replicate 6 (AddRun projectId suiteId runName description milestoneId) \<rparr>))
   \<and> (truthy runId \<and> (\<forall>h. closeFails JSON_parse (TestRail h)) \<longrightarrow>
      closeTestRun JSON_parse TestRail runId initialState =
        (Exit1 (ErrorClosing (errorOf JSON_parse (TestRail (replicate 6 (CloseRun runId))))),
         \<lparr> apiCallsAttempted = 5, requests = replicate 6 (CloseRun runId) \<rparr>))
   \<and> ((\<forall>h. uploadFails JSON_parse (TestRail h)) \<longrightarrow>
      addResultsForCasesAttempt JSON_parse TestRail runId caseResults initialState =
        (Exit1 (ErrorUploading (errorOf JSON_parse (TestRail
           (replicate 6 (AddResultsForCases runId caseResults))))),
         \<lparr> apiCallsAttempted = 5,
           requests = replicate 6 (AddResultsForCases runId caseResults) \<rparr>))
   \<and> (truthy projectId \<and> truthy runName
        \<and> (\<forall>i<4. initFails JSON_parse (TestRail
              (replicate (Suc i) (AddRun projectId suiteId runName description milestoneId))))
        \<and> initSucceeds JSON_parse (TestRail
              (replicate 5 (AddRun projectId suiteId runName description milestoneId))) \<longrightarrow>
      initializeTestRun JSON_parse TestRail projectId runName suiteId description milestoneId
          initialState =
        (Exit0 (RunId (idOf JSON_parse (TestRail
           (replicate 5 (AddRun projectId suiteId runName description milestoneId))))),
         \<lparr> apiCallsAttempted = 4,
           requests = replicate 5 (AddRun projectId suiteId runName description milestoneId) \<rparr>))
   \<and> (truthy runId
        \<and> (\<forall>i<4. closeFails JSON_parse (TestRail (replicate (Suc i) (CloseRun runId))))
        \<and> closeSucceeds JSON_parse (TestRail (replicate 5 (CloseRun runId))) \<longrightarrow>
      closeTestRun JSON_parse TestRail runId initialState =
        (Exit0 (ClosedRun runId),
         \<lparr> apiCallsAttempted = 4, requests = replicate 5 (CloseRun runId) \<rparr>))
   \<and> ((\<forall>i<4. uploadFails JSON_parse (TestRail
              (replicate (Suc i) (AddResultsForCases runId caseResults))))
        \<and> uploadSucceeds JSON_parse (TestRail
              (replicate 5 (AddResultsForCases runId caseResults))) \<longrightarrow>
      addResultsForCasesAttempt JSON_parse TestRail runId caseResults initialState =
        (Exit0 (Uploaded (lengthOf JSON_parse (TestRail
           (replicate 5 (AddResultsForCases runId caseResults))))),
         \<lparr> apiCallsAttempted = 4,
           requests = replicate 5 (AddResultsForCases runId caseResults) \<rparr>))"
proof (intro conjI impI)
  assume a: "truthy projectId \<and> truthy runName \<and> (\<forall>h. initFails JSON_parse (TestRail h))"
  show "initializeTestRun JSON_parse TestRail projectId runName suiteId description milestoneId
      initialState =
    (Exit1 (ErrorInitializing (errorOf JSON_parse (TestRail
       (replicate 6 (AddRun projectId suiteId runName description milestoneId))))),
     \<lparr> apiCallsAttempted = 5,
       requests = replicate 6 (AddRun projectId suiteId runName description milestoneId) \<rparr>)"
    using a initializeTestRun_exhausts [of projectId runName JSON_parse TestRail 5 initialState
        suiteId description milestoneId]
    by (simp add: initialState_def maxCallAttemptsAllowed_def eval_nat_numeral)
next
  assume a: "truthy runId \<and> (\<forall>h. closeFails JSON_parse (TestRail h))"
  show "closeTestRun JSON_parse TestRail runId initialState =
    (Exit1 (ErrorClosing (errorOf JSON_parse (TestRail (replicate 6 (CloseRun runId))))),
     \<lparr> apiCallsAttempted = 5, requests = replicate 6 (CloseRun runId) \<rparr>)"
    using a closeTestRun_exhausts [of runId JSON_parse TestRail 5 initialState]
    by (simp add: initialState_def maxCallAttemptsAllowed_def eval_nat_numeral)
next
  assume a: "\<forall>h. uploadFails JSON_parse (TestRail h)"
  show "addResultsForCasesAttempt JSON_parse TestRail runId caseResults initialState =
    (Exit1 (ErrorUploading (errorOf JSON_parse (TestRail
       (replicate 6 (AddResultsForCases runId caseResults))))),
     \<lparr> apiCallsAttempted = 5,
       requests = replicate 6 (AddResultsForCases runId caseResults) \<rparr>)"
    using a addResultsForCasesAttempt_exhausts [of JSON_parse TestRail 5 initialState runId
        caseResults]
    by (simp add: initialState_def maxCallAttemptsAllowed_def eval_nat_numeral)
next
  let ?r = "AddRun projectId suiteId runName description milestoneId"
  assume a: "truthy projectId \<and> truthy runName
      \<and> (\<forall>i<4. initFails JSON_parse (TestRail (replicate (Suc i) ?r)))
      \<and> initSucceeds JSON_parse (TestRail (replicate 5 ?r))"
  have "initializeTestRun JSON_parse TestRail projectId runName suiteId description milestoneId
      initialState =
    (Exit0 (RunId (idOf JSON_parse (TestRail (requests initialState @ replicate (Suc 4) ?r)))),
     initialState\<lparr>requests := requests initialState @ replicate (Suc 4) ?r,
       apiCallsAttempted := apiCallsAttempted initialState + 4\<rparr>)"
    using a
    by (intro initializeTestRun_succeeds)
       (simp_all add: initialState_counter maxCallAttemptsAllowed_def eval_nat_numeral)
  then show "initializeTestRun JSON_parse TestRail projectId runName suiteId description
      milestoneId initialState =
    (Exit0 (RunId (idOf JSON_parse (TestRail (replicate 5 ?r)))),
     \<lparr> apiCallsAttempted = 4, requests = replicate 5 ?r \<rparr>)"
    by (simp add: initialState_def eval_nat_numeral)
next
  let ?r = "CloseRun runId"
  assume a: "truthy runId
      \<and> (\<forall>i<4. closeFails JSON_parse (TestRail (replicate (Suc i) ?r)))
      \<and> closeSucceeds JSON_parse (TestRail (replicate 5 ?r))"
  have "closeTestRun JSON_parse TestRail runId initialState =
    (Exit0 (ClosedRun runId),
     initialState\<lparr>requests := requests initialState @ replicate (Suc 4) ?r,
       apiCallsAttempted := apiCallsAttempted initialState + 4\<rparr>)"
    using a
    by (intro closeTestRun_succeeds)
       (simp_all add: initialState_counter maxCallAttemptsAllowed_def eval_nat_numeral)
  then show "closeTestRun JSON_parse TestRail runId initialState =
    (Exit0 (ClosedRun runId), \<lparr> apiCallsAttempted = 4, requests = replicate 5 ?r \<rparr>)"
    by (simp add: initialState_def eval_nat_numeral)
next
  let ?r = "AddResultsForCases runId caseResults"
  assume a: "(\<forall>i<4. uploadFails JSON_parse (TestRail (replicate (Suc i) ?r)))
      \<and> uploadSucceeds JSON_parse (TestRail (replicate 5 ?r))"
  have "addResultsForCasesAttempt JSON_parse TestRail runId caseResults initialState =
    (Exit0 (Uploaded (lengthOf JSON_parse (TestRail
        (requests initialState @ replicate (Suc 4) ?r)))),
     initialState\<lparr>requests := requests initialState @ replicate (Suc 4) ?r,
       apiCallsAttempted := apiCallsAttempted initialState + 4\<rparr>)"
    using a
    by (intro addResultsForCasesAttempt_succeeds)
       (simp_all add: initialState_counter maxCallAttemptsAllowed_def eval_nat_numeral)
  then show "addResultsForCasesAttempt JSON_parse TestRail runId caseResults initialState =
    (Exit0 (Uploaded (lengthOf JSON_parse (TestRail (replicate 5 ?r)))),
     \<lparr> apiCallsAttempted = 4, requests = replicate 5 ?r \<rparr>)"
    by (simp add: initialState_def eval_nat_numeral)
qed

theorem C1_exhaustion_after_six_calls_witness:
  "closeTestRun noTextResponses failingService (JNum (Fin 10)) initialState =
     (Exit1 (ErrorClosing (JStr ''Service unavailable'')),
      \<lparr> apiCallsAttempted = 5, requests = replicate 6 (CloseRun (JNum (Fin 10))) \<rparr>)
   \<and> length (requests (snd (initializeTestRun noTextResponses failingService (JNum (Fin 2))
        (JStr ''Nightly'') JUndefined JUndefined JUndefined initialState))) = 6
   \<and> length (requests (snd (addResultsForCasesAttempt noTextResponses failingService (JNum (Fin 10))
        [] initialState))) = 6
   \<and> closeTestRun noTextResponses recoveringService (JNum (Fin 10)) initialState =
       (Exit0 (ClosedRun (JNum (Fin 10))),
        \<lparr> apiCallsAttempted = 4, requests = replicate 5 (CloseRun (JNum (Fin 10))) \<rparr>)
   \<and> length (requests (snd (initializeTestRun noTextResponses recoveringService (JNum (Fin 2))
        (JStr ''Nightly'') JUndefined JUndefined JUndefined initialState))) = 5
   \<and> length (requests (snd (addResultsForCasesAttempt noTextResponses recoveringService (JNum (Fin 10))
        [] initialState))) = 5"
proof -
  note inst = C1_exhaustion_after_six_calls [where JSON_parse = noTextResponses
      and projectId = "JNum (Fin 2)" and runName = "JStr ''Nightly''" and suiteId = JUndefined
      and description = JUndefined and milestoneId = JUndefined and runId = "JNum (Fin 10)"
      and caseResults = "[]"]
  have t: "truthy (JNum (Fin 2)) \<and> truthy (JStr ''Nightly'') \<and> truthy (JNum (Fin 10))" by simp
  have e: "errorOf noTextResponses (failingService h) = JStr ''Service unavailable''" for h
    by (simp add: errorOf_def failingService_def parseResponse_def)
  have f: "\<forall>i<4. length (replicate (Suc i) (r :: request)) < 5" for r by simp
  show ?thesis
    using t inst [where TestRail = failingService] inst [where TestRail = recoveringService]
      failingService_fails recoveringService_fails recoveringService_succeeds f
    by (simp add: e)
qed

text \<open>
  Claim C2, as the code has it. No result of the extraction of src/core.js carries a
  \<open>version\<close> field: for the single testsuite with the one testcase of name A, class C
  and time 0, mapped to 7 by the class-qualified table, the batch is exactly
  \<open>{case_id: 7, status_id: 1, elapsed: "1s"}\<close>. It is the single-suite variant of
  part_000 that sets \<open>version\<close> to \<open>"test"\<close> on every result.
\<close>

theorem C2_version_field:
  "(forEach_fileContents rt configs roots [] = Inr rs \<longrightarrow>
      list_all (\<lambda>r. version r = None) rs)
   \<and> (HtmlEntities_decode rt (Some ''A'') = ''A'' \<and> HtmlEntities_decode rt (Some ''C'') = ''C''
        \<and> ToNumber rt ''0'' = Fin 0 \<longrightarrow>
        forEach_fileContents rt sampleConfigs [sampleSuite] [] =
          Inr [\<lparr> case_id = JNum (Fin 7), elapsed = Some ''1s'', status_id = 1, comment = None,
                 version = None \<rparr>])
   \<and> (forEach_fileContents_part_000 rt configs' roots' [] = Inr rs' \<longrightarrow>
        list_all (\<lambda>r. version r = Some ''test'') rs')"
proof (intro conjI impI)
  assume "forEach_fileContents rt configs roots [] = Inr rs"
  then have "rs = concat (map (emitted rt configs) roots)"
    using forEach_fileContents_Inr by fastforce
  then show "list_all (\<lambda>r. version r = None) rs"
    using version_emitted [of rt configs]
    by (auto simp: list_all_iff)
next
  assume "HtmlEntities_decode rt (Some ''A'') = ''A'' \<and> HtmlEntities_decode rt (Some ''C'') = ''C''
      \<and> ToNumber rt ''0'' = Fin 0"
  then show "forEach_fileContents rt sampleConfigs [sampleSuite] [] =
      Inr [\<lparr> case_id = JNum (Fin 7), elapsed = Some ''1s'', status_id = 1, comment = None,
             version = None \<rparr>]"
    by (simp add: sampleSuite_def suiteOf_def testcaseCA_def testcaseResult_def
        resolveCaseIdFromTestCase_def sampleConfigs_def Math_ceil_toString_def
        integerToString_def intToString_1)
next
  assume "forEach_fileContents_part_000 rt configs' roots' [] = Inr rs'"
  then show "list_all (\<lambda>r. version r = Some ''test'') rs'"
    by (rule version_part_000_files) simp
qed

theorem C2_version_field_witness:
  "forEach_fileContents sampleRuntime sampleConfigs [sampleSuite] [] =
     Inr [\<lparr> case_id = JNum (Fin 7), elapsed = Some ''1s'', status_id = 1, comment = None,
            version = None \<rparr>]
   \<and> list_all (\<lambda>r. version r = None)
       [\<lparr> case_id = JNum (Fin 7), elapsed = Some ''1s'', status_id = 1, comment = None,
          version = None \<rparr>]
   \<and> forEach_fileContents_part_000 sampleRuntime zeroClassConfigs [sampleSuite] [] =
       Inr [\<lparr> case_id = JNum (Fin 9), elapsed = Some ''0s'', status_id = 1, comment = None,
              version = Some ''test'' \<rparr>]
   \<and> list_all (\<lambda>r. version r = Some ''test'')
       [\<lparr> case_id = JNum (Fin 9), elapsed = Some ''0s'', status_id = 1, comment = None,
          version = Some ''test'' \<rparr>]"
proof -
  let ?r1 = "\<lparr> case_id = JNum (Fin 9), elapsed = Some ''0s'', status_id = 1, comment = None,
               version = Some ''test'' \<rparr>"
  have old: "forEach_fileContents_part_000 sampleRuntime zeroClassConfigs
      [sampleSuite] [] = Inr [?r1]"
    by (simp add: sampleSuite_def suiteOf_def testcaseCA_def testcaseResult_part_000_def
        zeroClassConfigs_def sampleRuntime_fields plainDecode_def sampleToNumber_def
        Math_ceil_toString_def integerToString_def intToString_0)
  have pre: "HtmlEntities_decode sampleRuntime (Some ''A'') = ''A''
      \<and> HtmlEntities_decode sampleRuntime (Some ''C'') = ''C''
      \<and> ToNumber sampleRuntime ''0'' = Fin 0"
    by (simp add: sampleRuntime_fields plainDecode_def sampleToNumber_def)
  show ?thesis
    using C2_version_field [where rt = sampleRuntime and configs = sampleConfigs
        and roots = "[sampleSuite]" and configs' = zeroClassConfigs and roots' = "[sampleSuite]"
        and rs' = "[?r1]"] old pre extract_sample
    by simp
qed

text \<open>
  Claim C2 as stated fails on src/core.js: the batch that \<open>report\<close> submits for the
  document of the claim holds one result without a \<open>version\<close> field.
\<close>

theorem C2_counterexample:
  "requests (snd (reportXml_done sampleRuntime noTextResponses acceptingService
      sampleConfigs (JNum (Fin 10)) [sampleSuite] initialState)) =
     [AddResultsForCases (JNum (Fin 10))
        [\<lparr> case_id = JNum (Fin 7), elapsed = Some ''1s'', status_id = 1, comment = None,
           version = None \<rparr>]]
   \<and> version \<lparr> case_id = JNum (Fin 7), elapsed = Some ''1s'', status_id = 1, comment = None,
         version = None \<rparr> \<noteq> Some ''test''"
  unfolding reportXml_done_def extract_sample
  by (simp add: addResultsForCasesAttempt.simps initialState_def acceptingService_def
      parseResponse_def)

text \<open>
  Claim C3 on the code: a root tagged \<open>testsuite\<close> that has no children falls through
  both branches of \<open>parseXmlIntoCaseResults\<close> and ends the report with the invalid-xml
  error, whatever the configuration. In general the extraction is rejected exactly on
  the documents that are not \<open>accepted\<close>: those where the root, or a node reached
  under a \<open>testsuites\<close>, is neither a \<open>testsuites\<close> nor a \<open>testsuite\<close> with at
  least one child.
\<close>

theorem C3_empty_testsuite_rejected:
  "parseXmlIntoCaseResults rt configs (Node ''testsuite'' attrs []) caseResults = Inl InvalidXml
   \<and> reportXml_done rt JSON_parse TestRail configs runId [Node ''testsuite'' attrs []] s =
       (Exit1 InvalidXmlRoot, s)
   \<and> (parseXmlIntoCaseResults rt configs doc caseResults = Inl InvalidXml) = (\<not> accepted doc)"
proof -
  have "(parseXmlIntoCaseResults rt configs doc caseResults = Inl InvalidXml) = (\<not> accepted doc)"
    by (cases "accepted doc") (simp_all add: parse_accepted(1) parse_rejected(1))
  then show ?thesis
    by (simp add: reportXml_done_def)
qed




text \<open>
  Claim C5, as the code has it. With class and name entity-decoded and looked up as
  exact strings: a class-qualified entry of truthy (non-zero) value is returned,
  whatever the flat table holds. On tables shaped as the data model has them, and for a
  class and a name that are not inherited names: when there is no class-qualified
  entry, or its value is falsy, a flat entry of truthy value is returned; and when the
  flat table has no truthy entry either, the result is \<open>null\<close>.
\<close>

theorem C5_resolve_precedence:
  "(classQualifiedEntry configs (HtmlEntities_decode rt (attributes tc ''class''))
        (HtmlEntities_decode rt (attributes tc ''name'')) = Some v \<and> truthy v \<longrightarrow>
      resolveCaseIdFromTestCase rt configs tc = v)
   \<and> (wellFormedTables configs \<and> plainNames rt tc
       \<and> \<not> truthyEntry (classQualifiedEntry configs
             (HtmlEntities_decode rt (attributes tc ''class''))
             (HtmlEntities_decode rt (attributes tc ''name'')))
       \<and> flatEntry configs (HtmlEntities_decode rt (attributes tc ''name'')) = Some w
       \<and> truthy w \<longrightarrow>
      resolveCaseIdFromTestCase rt configs tc = w)
   \<and> (wellFormedTables configs \<and> plainNames rt tc
       \<and> \<not> truthyEntry (classQualifiedEntry configs
             (HtmlEntities_decode rt (attributes tc ''class''))
             (HtmlEntities_decode rt (attributes tc ''name'')))
       \<and> \<not> truthyEntry (flatEntry configs (HtmlEntities_decode rt (attributes tc ''name''))) \<longrightarrow>
      resolveCaseIdFromTestCase rt configs tc = JNull)"
proof (intro conjI impI)
  assume "classQualifiedEntry configs (HtmlEntities_decode rt (attributes tc ''class''))
      (HtmlEntities_decode rt (attributes tc ''name'')) = Some v \<and> truthy v"
  then show "resolveCaseIdFromTestCase rt configs tc = v"
    by (simp add: resolve_class_entry)
next
  assume a: "wellFormedTables configs \<and> plainNames rt tc
      \<and> \<not> truthyEntry (classQualifiedEntry configs
            (HtmlEntities_decode rt (attributes tc ''class''))
            (HtmlEntities_decode rt (attributes tc ''name'')))
      \<and> flatEntry configs (HtmlEntities_decode rt (attributes tc ''name'')) = Some w
      \<and> truthy w"
  then have "\<not> inheritedName rt (HtmlEntities_decode rt (attributes tc ''class''))"
    "\<not> inheritedName rt (HtmlEntities_decode rt (attributes tc ''name''))"
    by (simp_all add: plainNames_def)
  then show "resolveCaseIdFromTestCase rt configs tc = w"
    using a by (simp add: resolve_own truthyEntry_def)
next
  assume a: "wellFormedTables configs \<and> plainNames rt tc
      \<and> \<not> truthyEntry (classQualifiedEntry configs
            (HtmlEntities_decode rt (attributes tc ''class''))
            (HtmlEntities_decode rt (attributes tc ''name'')))
      \<and> \<not> truthyEntry (flatEntry configs (HtmlEntities_decode rt (attributes tc ''name'')))"
  then have "\<not> inheritedName rt (HtmlEntities_decode rt (attributes tc ''class''))"
    "\<not> inheritedName rt (HtmlEntities_decode rt (attributes tc ''name''))"
    by (simp_all add: plainNames_def)
  then show "resolveCaseIdFromTestCase rt configs tc = JNull"
    using a by (simp add: resolve_own)
qed

theorem C5_resolve_precedence_witness:
  "resolveCaseIdFromTestCase sampleRuntime sampleConfigs (testcaseCA Map.empty []) = JNum (Fin 7)
   \<and> resolveCaseIdFromTestCase sampleRuntime zeroClassConfigs (testcaseCA Map.empty [])
       = JNum (Fin 9)
   \<and> resolveCaseIdFromTestCase sampleRuntime zeroOnlyConfigs (testcaseCA Map.empty []) = JNull"
proof -
  let ?tc = "testcaseCA Map.empty []"
  have a: "classQualifiedEntry sampleConfigs ''C'' ''A'' = Some (JNum (Fin 7))
      \<and> truthy (JNum (Fin 7))"
    by (simp add: classQualifiedEntry_def sampleConfigs_def)
  have b: "\<not> truthyEntry (classQualifiedEntry zeroClassConfigs ''C'' ''A'')
      \<and> flatEntry zeroClassConfigs ''A'' = Some (JNum (Fin 9)) \<and> truthy (JNum (Fin 9))"
    by (simp add: classQualifiedEntry_def flatEntry_def zeroClassConfigs_def truthyEntry_def)
  have c: "\<not> truthyEntry (classQualifiedEntry zeroOnlyConfigs ''C'' ''A'')
      \<and> \<not> truthyEntry (flatEntry zeroOnlyConfigs ''A'')"
    by (simp add: classQualifiedEntry_def flatEntry_def zeroOnlyConfigs_def truthyEntry_def)
  have 1: "resolveCaseIdFromTestCase sampleRuntime sampleConfigs ?tc = JNum (Fin 7)"
    using a C5_resolve_precedence [where configs = sampleConfigs and rt = sampleRuntime
        and tc = ?tc and v = "JNum (Fin 7)"]
    by (simp only: sample_names; blast)
  have 2: "resolveCaseIdFromTestCase sampleRuntime zeroClassConfigs ?tc = JNum (Fin 9)"
    using b sample_tables(2) sample_names(5) [of Map.empty "[]"]
      C5_resolve_precedence [where configs = zeroClassConfigs and rt = sampleRuntime
        and tc = ?tc and w = "JNum (Fin 9)"]
    by (simp only: sample_names(1,2); blast)
  have 3: "resolveCaseIdFromTestCase sampleRuntime zeroOnlyConfigs ?tc = JNull"
    using c sample_tables(3) sample_names(5) [of Map.empty "[]"]
      C5_resolve_precedence [where configs = zeroOnlyConfigs and rt = sampleRuntime
        and tc = ?tc]
    by (simp only: sample_names(1,2); blast)
  show ?thesis using 1 2 3 by blast
qed

text \<open>
  Claim C5 as stated fails in two places. Where the class-qualified entry is 0: the
  class-qualified table holds class C with name A, the flat table holds A as well, and
  the resolver returns the flat value 9, not the class-qualified value. And where the
  name is an inherited name: class C has no entry for \<open>toString\<close>, the flat table
  holds \<open>toString\<close> with value 9, and the resolver returns the function that the
  sub-table of C inherits under that name, not the flat value.
\<close>

theorem C5_counterexample:
  "classQualifiedEntry zeroClassConfigs ''C'' ''A'' = Some (JNum (Fin 0))
   \<and> flatEntry zeroClassConfigs ''A'' = Some (JNum (Fin 9))
   \<and> HtmlEntities_decode sampleRuntime (attributes (testcaseCA Map.empty []) ''class'') = ''C''
   \<and> HtmlEntities_decode sampleRuntime (attributes (testcaseCA Map.empty []) ''name'') = ''A''
   \<and> resolveCaseIdFromTestCase sampleRuntime zeroClassConfigs (testcaseCA Map.empty [])
       = JNum (Fin 9)
   \<and> classQualifiedEntry inheritedNameConfigs ''C'' ''toString'' = None
   \<and> flatEntry inheritedNameConfigs ''toString'' = Some (JNum (Fin 9))
   \<and> resolveCaseIdFromTestCase sampleRuntime inheritedNameConfigs (testcaseOf ''C'' ''toString'')
       = JFunction ''toString''"
  by (simp add: classQualifiedEntry_def flatEntry_def zeroClassConfigs_def
      inheritedNameConfigs_def sampleRuntime_fields plainDecode_def samplePrototype_def
      testcaseCA_def testcaseOf_def resolveCaseIdFromTestCase_def)

text \<open>
  Claim C6 on the code. On a document that the extraction goes through, it yields, in
  document order, the results of exactly the resolvable testcase entries: \<open>N\<close> results
  for \<open>N\<close> resolvable and \<open>M\<close> unresolvable entries, however they are interleaved, each
  with a truthy \<open>case_id\<close>; an entry is resolvable when the resolver returns a truthy
  value for it, an identifier of the tables or, under an inherited name, the property
  that every object inherits. But a document that holds a \<open>testsuite\<close> without children
  beside a \<open>testsuite\<close> with one resolvable testcase has \<open>N = 1\<close>, and there the
  extraction ends with the invalid-xml error and yields nothing.
\<close>

theorem C6_resolved_entries_or_abort:
  "(accepted doc \<longrightarrow>
      parseXmlIntoCaseResults rt configs doc [] =
        Inr (map (testcaseResult rt configs)
               (filter (resolvable rt configs) (testcaseEntries doc)))
      \<and> length (filter (resolvable rt configs) (testcaseEntries doc))
          + length (filter (\<lambda>t. \<not> resolvable rt configs t) (testcaseEntries doc))
          = length (testcaseEntries doc)
      \<and> list_all (\<lambda>r. truthy (case_id r))
          (map (testcaseResult rt configs)
             (filter (resolvable rt configs) (testcaseEntries doc))))
   \<and> (name t = ''testcase'' \<and> resolvable rt configs t \<longrightarrow>
      filter (resolvable rt configs)
          (testcaseEntries (Node ''testsuites'' attrs
             [Node ''testsuite'' attrs1 [t], Node ''testsuite'' attrs2 []])) = [t]
      \<and> parseXmlIntoCaseResults rt configs
          (Node ''testsuites'' attrs [Node ''testsuite'' attrs1 [t], Node ''testsuite'' attrs2 []])
          caseResults = Inl InvalidXml)"
proof (intro conjI impI)
  assume a: "accepted doc"
  have "parseXmlIntoCaseResults rt configs doc [] = Inr ([] @ emitted rt configs doc)"
    using a by (rule parse_accepted(1))
  then show "parseXmlIntoCaseResults rt configs doc [] =
      Inr (map (testcaseResult rt configs)
             (filter (resolvable rt configs) (testcaseEntries doc)))"
    by (simp add: emitted_def)
  show "length (filter (resolvable rt configs) (testcaseEntries doc))
      + length (filter (\<lambda>t. \<not> resolvable rt configs t) (testcaseEntries doc))
      = length (testcaseEntries doc)"
    by (rule sum_length_filter_compl)
  show "list_all (\<lambda>r. truthy (case_id r))
      (map (testcaseResult rt configs)
         (filter (resolvable rt configs) (testcaseEntries doc)))"
    by (simp add: list_all_iff case_id_testcaseResult resolvable_def)
next
  assume b: "name t = ''testcase'' \<and> resolvable rt configs t"
  then show "filter (resolvable rt configs)
      (testcaseEntries (Node ''testsuites'' attrs
         [Node ''testsuite'' attrs1 [t], Node ''testsuite'' attrs2 []])) = [t]"
    by simp
  show "parseXmlIntoCaseResults rt configs
      (Node ''testsuites'' attrs [Node ''testsuite'' attrs1 [t], Node ''testsuite'' attrs2 []])
      caseResults = Inl InvalidXml"
    by simp
qed

theorem C6_resolved_entries_or_abort_witness:
  "accepted mixedSuite
   \<and> length (filter (resolvable sampleRuntime sampleConfigs) (testcaseEntries mixedSuite)) = 2
   \<and> length (filter (\<lambda>t. \<not> resolvable sampleRuntime sampleConfigs t) (testcaseEntries mixedSuite))
       = 1
   \<and> parseXmlIntoCaseResults sampleRuntime sampleConfigs mixedSuite [] =
       Inr [\<lparr> case_id = JNum (Fin 7), elapsed = None, status_id = 1, comment = None,
              version = None \<rparr>,
            \<lparr> case_id = JNum (Fin 7), elapsed = None, status_id = 1, comment = None,
              version = None \<rparr>]
   \<and> filter (resolvable sampleRuntime sampleConfigs) (testcaseEntries suitesWithEmptySuite)
       = [testcaseCA [''time'' \<mapsto> ''0''] []]
   \<and> parseXmlIntoCaseResults sampleRuntime sampleConfigs suitesWithEmptySuite [] = Inl InvalidXml"
proof -
  let ?t = "testcaseCA [''time'' \<mapsto> ''0''] []"
  have a: "accepted mixedSuite"
    by (simp add: mixedSuite_def suiteOf_def)
  have n: "filter (resolvable sampleRuntime sampleConfigs) (testcaseEntries mixedSuite) =
      [testcaseCA Map.empty [], testcaseCA Map.empty []]"
    by (simp add: entries_mixed resolvable_def resolve_sample resolve_unmapped)
  have m: "filter (\<lambda>t. \<not> resolvable sampleRuntime sampleConfigs t) (testcaseEntries mixedSuite) =
      [testcaseUnmapped]"
    by (simp add: entries_mixed resolvable_def resolve_sample resolve_unmapped)
  have b: "name ?t = ''testcase'' \<and> resolvable sampleRuntime sampleConfigs ?t"
    by (simp add: resolvable_def resolve_sample) (simp add: testcaseCA_def)
  have 1: "parseXmlIntoCaseResults sampleRuntime sampleConfigs mixedSuite [] =
      Inr [\<lparr> case_id = JNum (Fin 7), elapsed = None, status_id = 1, comment = None,
             version = None \<rparr>,
           \<lparr> case_id = JNum (Fin 7), elapsed = None, status_id = 1, comment = None,
             version = None \<rparr>]"
    using a C6_resolved_entries_or_abort [where doc = mixedSuite and rt = sampleRuntime
        and configs = sampleConfigs and t = ?t and attrs = Map.empty and ?attrs1.0 = Map.empty
        and ?attrs2.0 = Map.empty and caseResults = "[]"]
    by (simp add: n m result_sample_untimed)
  have 2: "filter (resolvable sampleRuntime sampleConfigs) (testcaseEntries suitesWithEmptySuite)
        = [?t]
      \<and> parseXmlIntoCaseResults sampleRuntime sampleConfigs suitesWithEmptySuite [] =
        Inl InvalidXml"
    using b C6_resolved_entries_or_abort [where doc = mixedSuite and rt = sampleRuntime
        and configs = sampleConfigs and t = ?t and attrs = Map.empty and ?attrs1.0 = Map.empty
        and ?attrs2.0 = Map.empty and caseResults = "[]"]
    unfolding suitesWithEmptySuite_def sampleSuite_def suiteOf_def by blast
  show ?thesis
    using a n m 1 2 by simp
qed




text \<open>
  Claim C8 on the code. Under a root tagged \<open>testsuites\<close> the extraction runs on each
  child in turn and, when none of them is rejected, yields the concatenation of their
  results in document order; with two \<open>testsuite\<close> children holding one passing
  resolvable testcase each, that is the two results, first child first. A \<open>testsuites\<close>
  without children adds nothing and is no error. In a \<open>testsuite\<close> that has children,
  those not tagged \<open>testcase\<close> are passed over without error. But where one of the
  child suites is a \<open>testsuite\<close> without children, the extraction does not concatenate
  the results of the others: it ends with the invalid-xml error.
\<close>

theorem C8_traversal_or_abort:
  "(list_all (\<lambda>s. \<not> isl (parseXmlIntoCaseResults rt configs s [])) suites \<longrightarrow>
      parseXmlIntoCaseResults rt configs (Node ''testsuites'' attrs suites) [] =
        Inr (concat (map (\<lambda>s. projr (parseXmlIntoCaseResults rt configs s [])) suites)))
   \<and> (name t1 = ''testcase'' \<and> children t1 = [] \<and> resolvable rt configs t1
        \<and> name t2 = ''testcase'' \<and> children t2 = [] \<and> resolvable rt configs t2 \<longrightarrow>
      parseXmlIntoCaseResults rt configs
          (Node ''testsuites'' attrs [Node ''testsuite'' attrs1 [t1], Node ''testsuite'' attrs2 [t2]]) []
        = Inr [testcaseResult rt configs t1, testcaseResult rt configs t2]
      \<and> status_id (testcaseResult rt configs t1) = 1
      \<and> status_id (testcaseResult rt configs t2) = 1)
   \<and> parseXmlIntoCaseResults rt configs (Node ''testsuites'' attrs []) caseResults =
       Inr caseResults
   \<and> (cs \<noteq> [] \<longrightarrow>
      parseXmlIntoCaseResults rt configs (Node ''testsuite'' attrs cs) caseResults =
        Inr (forEach_testcase rt configs (filter (\<lambda>c. name c = ''testcase'') cs) caseResults))
   \<and> parseXmlIntoCaseResults rt configs
        (Node ''testsuites'' attrs [Node ''testsuite'' attrs1 (t1 # ts), Node ''testsuite'' attrs2 []])
        caseResults = Inl InvalidXml"
proof (intro conjI impI)
  assume "list_all (\<lambda>s. \<not> isl (parseXmlIntoCaseResults rt configs s [])) suites"
  then show "parseXmlIntoCaseResults rt configs (Node ''testsuites'' attrs suites) [] =
      Inr (concat (map (\<lambda>s. projr (parseXmlIntoCaseResults rt configs s [])) suites))"
    by (simp add: forEach_testSuite_concat)
next
  assume a: "name t1 = ''testcase'' \<and> children t1 = [] \<and> resolvable rt configs t1
      \<and> name t2 = ''testcase'' \<and> children t2 = [] \<and> resolvable rt configs t2"
  then show "parseXmlIntoCaseResults rt configs
      (Node ''testsuites'' attrs [Node ''testsuite'' attrs1 [t1], Node ''testsuite'' attrs2 [t2]]) []
      = Inr [testcaseResult rt configs t1, testcaseResult rt configs t2]"
    by (simp add: forEach_testcase_filter)
  from a show "status_id (testcaseResult rt configs t1) = 1"
    by (simp add: testcaseResult_def)
  from a show "status_id (testcaseResult rt configs t2) = 1"
    by (simp add: testcaseResult_def)
next
  show "parseXmlIntoCaseResults rt configs (Node ''testsuites'' attrs []) caseResults =
      Inr caseResults"
    by simp
next
  assume "cs \<noteq> []"
  then show "parseXmlIntoCaseResults rt configs (Node ''testsuite'' attrs cs) caseResults =
      Inr (forEach_testcase rt configs (filter (\<lambda>c. name c = ''testcase'') cs) caseResults)"
    by (simp add: forEach_testcase_filter)
next
  show "parseXmlIntoCaseResults rt configs
      (Node ''testsuites'' attrs [Node ''testsuite'' attrs1 (t1 # ts), Node ''testsuite'' attrs2 []])
      caseResults = Inl InvalidXml"
    by simp
qed

theorem C8_traversal_or_abort_witness:
  "parseXmlIntoCaseResults sampleRuntime sampleConfigs twoSuites [] =
     Inr [\<lparr> case_id = JNum (Fin 7), elapsed = None, status_id = 1, comment = None,
            version = None \<rparr>,
          \<lparr> case_id = JNum (Fin 7), elapsed = Some ''1s'', status_id = 1, comment = None,
            version = None \<rparr>]
   \<and> parseXmlIntoCaseResults sampleRuntime sampleConfigs twoSuites [] =
       Inr (concat (map (\<lambda>s. projr (parseXmlIntoCaseResults sampleRuntime sampleConfigs s []))
              [suiteOf [testcaseCA Map.empty []], sampleSuite]))
   \<and> parseXmlIntoCaseResults sampleRuntime sampleConfigs
       (suiteOf [Node ''properties'' Map.empty [], testcaseCA Map.empty []]) [] =
       Inr [\<lparr> case_id = JNum (Fin 7), elapsed = None, status_id = 1, comment = None,
              version = None \<rparr>]
   \<and> parseXmlIntoCaseResults sampleRuntime sampleConfigs suitesWithEmptySuite [] = Inl InvalidXml"
proof -
  let ?t1 = "testcaseCA Map.empty []" and ?t2 = "testcaseCA [''time'' \<mapsto> ''0''] []"
  note inst = C8_traversal_or_abort [where rt = sampleRuntime and configs = sampleConfigs
        and attrs = Map.empty and ?attrs1.0 = Map.empty and ?attrs2.0 = Map.empty
        and caseResults = "[]"]
  have a: "name ?t1 = ''testcase'' \<and> children ?t1 = [] \<and> resolvable sampleRuntime sampleConfigs ?t1
      \<and> name ?t2 = ''testcase'' \<and> children ?t2 = [] \<and> resolvable sampleRuntime sampleConfigs ?t2"
    by (simp add: resolvable_def resolve_sample) (simp add: testcaseCA_def)
  have b: "[Node ''properties'' Map.empty [], ?t1] \<noteq> []" by simp
  have c: "filter (\<lambda>c. name c = ''testcase'') [Node ''properties'' Map.empty [], ?t1] = [?t1]"
    by (simp add: testcaseCA_def)
  have d: "forEach_testcase sampleRuntime sampleConfigs [?t1] [] =
      [\<lparr> case_id = JNum (Fin 7), elapsed = None, status_id = 1, comment = None,
         version = None \<rparr>]"
    by (simp add: forEach_testcase_filter resolvable_def resolve_sample result_sample_untimed)
       (simp add: testcaseCA_def)
  have ok: "list_all (\<lambda>s. \<not> isl (parseXmlIntoCaseResults sampleRuntime sampleConfigs s []))
      [suiteOf [?t1], sampleSuite]"
    by (simp add: suiteOf_def sampleSuite_def)
  have 1: "parseXmlIntoCaseResults sampleRuntime sampleConfigs twoSuites [] =
      Inr [testcaseResult sampleRuntime sampleConfigs ?t1,
           testcaseResult sampleRuntime sampleConfigs ?t2]"
    using a inst [where ?t1.0 = ?t1 and ?t2.0 = ?t2]
    unfolding twoSuites_def sampleSuite_def suiteOf_def by blast
  have 2: "parseXmlIntoCaseResults sampleRuntime sampleConfigs twoSuites [] =
      Inr (concat (map (\<lambda>s. projr (parseXmlIntoCaseResults sampleRuntime sampleConfigs s []))
             [suiteOf [?t1], sampleSuite]))"
    using ok inst [where suites = "[suiteOf [?t1], sampleSuite]"]
    unfolding twoSuites_def by blast
  have 3: "parseXmlIntoCaseResults sampleRuntime sampleConfigs
      (suiteOf [Node ''properties'' Map.empty [], ?t1]) [] =
      Inr (forEach_testcase sampleRuntime sampleConfigs
             (filter (\<lambda>c. name c = ''testcase'') [Node ''properties'' Map.empty [], ?t1]) [])"
    using b inst [where cs = "[Node ''properties'' Map.empty [], ?t1]"]
    unfolding suiteOf_def by blast
  have 4: "parseXmlIntoCaseResults sampleRuntime sampleConfigs suitesWithEmptySuite [] =
      Inl InvalidXml"
    using inst [where ?t1.0 = ?t2 and ts = "[]"]
    unfolding suitesWithEmptySuite_def sampleSuite_def suiteOf_def by blast
  show ?thesis
    using 1 2 3 4 by (simp only: c d result_sample result_sample_untimed; simp)
qed

text \<open>
  Claim C9. When the results gathered from all the files are empty, \<open>report\<close> prints
  that nothing was parsed and calls the service not at all; when they are not empty,
  every call it makes (the first and each retry) submits the whole sequence as one
  batch, and there is at least one call. A rejected document ends the report before any
  call.
\<close>

theorem C9_upload_only_when_nonempty:
  "(forEach_fileContents rt configs roots [] = Inr [] \<longrightarrow>
      reportXml_done rt JSON_parse TestRail configs runId roots s = (Returned DidNotParse, s))
   \<and> (forEach_fileContents rt configs roots [] = Inr caseResults \<and> caseResults \<noteq> [] \<longrightarrow>
      reportXml_done rt JSON_parse TestRail configs runId roots s =
        addResultsForCasesAttempt JSON_parse TestRail runId caseResults s
      \<and> (\<exists>k. 1 \<le> k \<and> k \<le> Suc (maxCallAttemptsAllowed - apiCallsAttempted s) \<and>
            requests (snd (reportXml_done rt JSON_parse TestRail configs runId roots s)) =
              requests s @ replicate k (AddResultsForCases runId caseResults)))
   \<and> (forEach_fileContents rt configs roots [] = Inl e \<longrightarrow>
      reportXml_done rt JSON_parse TestRail configs runId roots s = (Exit1 InvalidXmlRoot, s))"
proof (intro conjI impI)
  assume "forEach_fileContents rt configs roots [] = Inr []"
  then show "reportXml_done rt JSON_parse TestRail configs runId roots s =
      (Returned DidNotParse, s)"
    by (simp add: reportXml_done_def)
next
  assume a: "forEach_fileContents rt configs roots [] = Inr caseResults \<and> caseResults \<noteq> []"
  then show eq: "reportXml_done rt JSON_parse TestRail configs runId roots s =
      addResultsForCasesAttempt JSON_parse TestRail runId caseResults s"
    by (simp add: reportXml_done_def)
  show "\<exists>k. 1 \<le> k \<and> k \<le> Suc (maxCallAttemptsAllowed - apiCallsAttempted s) \<and>
      requests (snd (reportXml_done rt JSON_parse TestRail configs runId roots s)) =
        requests s @ replicate k (AddResultsForCases runId caseResults)"
    unfolding eq by (rule addResultsForCasesAttempt_requests)
next
  assume "forEach_fileContents rt configs roots [] = Inl e"
  then show "reportXml_done rt JSON_parse TestRail configs runId roots s =
      (Exit1 InvalidXmlRoot, s)"
    by (simp add: reportXml_done_def)
qed

theorem C9_upload_only_when_nonempty_witness:
  "reportXml_done sampleRuntime noTextResponses acceptingService sampleConfigs
      (JNum (Fin 10)) [suiteOf [testcaseUnmapped]] initialState = (Returned DidNotParse, initialState)
   \<and> (\<exists>k. 1 \<le> k \<and> k \<le> Suc (maxCallAttemptsAllowed - apiCallsAttempted initialState) \<and>
         requests (snd (reportXml_done sampleRuntime noTextResponses acceptingService
            sampleConfigs (JNum (Fin 10)) [sampleSuite] initialState)) =
           requests initialState @ replicate k (AddResultsForCases (JNum (Fin 10))
             [\<lparr> case_id = JNum (Fin 7), elapsed = Some ''1s'', status_id = 1, comment = None,
                version = None \<rparr>]))
   \<and> reportXml_done sampleRuntime noTextResponses acceptingService sampleConfigs
       (JNum (Fin 10)) [suiteOf []] initialState = (Exit1 InvalidXmlRoot, initialState)"
proof -
  have bad: "forEach_fileContents sampleRuntime sampleConfigs [suiteOf []] [] =
      Inl InvalidXml"
    by (simp add: suiteOf_def)
  have ne: "[\<lparr> case_id = JNum (Fin 7), elapsed = Some ''1s'', status_id = 1, comment = None,
      version = None \<rparr>] \<noteq> []"
    by simp
  show ?thesis
    using extract_unmapped extract_sample bad ne
      C9_upload_only_when_nonempty [where rt = sampleRuntime and configs = sampleConfigs and roots = "[suiteOf [testcaseUnmapped]]"
        and JSON_parse = noTextResponses and TestRail = acceptingService and runId = "JNum (Fin 10)"
        and s = initialState and caseResults = "[]" and e = InvalidXml]
      C9_upload_only_when_nonempty [where rt = sampleRuntime and configs = sampleConfigs and roots = "[sampleSuite]"
        and JSON_parse = noTextResponses and TestRail = acceptingService and runId = "JNum (Fin 10)"
        and s = initialState and e = InvalidXml
        and caseResults = "[\<lparr> case_id = JNum (Fin 7), elapsed = Some ''1s'', status_id = 1,
          comment = None, version = None \<rparr>]"]
      C9_upload_only_when_nonempty [where rt = sampleRuntime and configs = sampleConfigs and roots = "[suiteOf []]"
        and JSON_parse = noTextResponses and TestRail = acceptingService and runId = "JNum (Fin 10)"
        and s = initialState and caseResults = "[]" and e = InvalidXml]
    by blast
qed




end
